theory Spec2Isabelle
  imports Complex_Main "HOL-Library.FSet"
begin

section \<open>Evaluation of agent trajectories (eval.py, utils.py)\<close>

text \<open>
  The program scores navigation trajectories against ground-truth paths. Distances are
  Python numbers (the integer 0 and floats); they are modelled as \<open>real\<close>. The
  theorems below use them only through comparisons, through the left-to-right sum of the
  trajectory length, through the one quotient of the SPL formula and through the square
  root of the edge weight; nothing proved here depends on how a float sum is rounded.
  The all-pairs shortest-path routine that fills the distance tables belongs to a graph
  library, not to the program: the tables are an input of the model.

  Every \<open>raise\<close> of the source is a value of the type \<open>error\<close>. A function that
  appends to \<open>self.scores\<close> returns the updated score lists together with its result,
  also when it fails, so that what has been appended before a failure is visible.
\<close>

subsection \<open>Data\<close>

datatype error =
    AssertionError string
  | IndexError
  | KeyError
  | ValueError
  | ZeroDivisionError

type_synonym viewpoint = string

text \<open>One trajectory element: \<open>(viewpoint_id, heading_rads, elevation_rads)\<close>.\<close>

type_synonym step = "viewpoint \<times> real \<times> real"

text \<open>A ground-truth item as \<open>load_datasets\<close> returns it.\<close>

record gt_item =
  path_id :: int
  scan :: string
  path :: "viewpoint list"
  instructions :: "string list"

text \<open>One entry of the results file: \<open>{'instr_id': ..., 'trajectory': [...]}\<close>.\<close>

record result_item =
  instr_id :: string
  trajectory :: "step list"

text \<open>\<open>self.scores\<close>, a \<open>defaultdict(list)\<close> with these five keys.\<close>

record scores =
  nav_errors :: "real list"
  oracle_errors :: "real list"
  trajectory_steps :: "int list"
  trajectory_lengths :: "real list"
  success_path_length :: "real list"

definition empty_scores :: scores where
  "empty_scores = \<lparr>nav_errors = [], oracle_errors = [], trajectory_steps = [],
     trajectory_lengths = [], success_path_length = []\<rparr>"

text \<open>
  The attributes of an \<open>Evaluation\<close> object that scoring reads. \<open>distances\<close> is the
  nested dictionary scan \<open>\<rightarrow>\<close> source \<open>\<rightarrow>\<close> destination \<open>\<rightarrow>\<close> distance that
  \<open>__init__\<close> fills from \<open>nx.all_pairs_dijkstra_path_length\<close>; the attribute
  \<open>graphs\<close> is read only there and is left out.
\<close>

record Evaluation =
  error_margin :: real
  splits :: "string list"
  gt :: "int \<rightharpoonup> gt_item"
  instr_ids :: "string fset"
  scans :: "string fset"
  distances :: "string \<rightharpoonup> (viewpoint \<rightharpoonup> (viewpoint \<rightharpoonup> real))"

subsection \<open>Formatting and parsing of instruction ids\<close>

text \<open>\<open>'%d' % n\<close> for a non-negative \<open>n\<close>; \<open>digit_char\<close> is only applied below 10.\<close>

definition digit_char :: "nat \<Rightarrow> char" where
  "digit_char d = ''0123456789'' ! d"

fun show_nat :: "nat \<Rightarrow> string" where
  "show_nat n = (if n < 10 then [digit_char n] else show_nat (n div 10) @ [digit_char (n mod 10)])"

declare show_nat.simps [simp del]

text \<open>\<open>'%d' % i\<close> for an integer.\<close>

definition show_int :: "int \<Rightarrow> string" where
  "show_int i = (if i < 0 then CHR ''-'' # show_nat (nat (- i)) else show_nat (nat i))"

text \<open>\<open>sep.join(xs)\<close>.\<close>

fun join :: "string \<Rightarrow> string list \<Rightarrow> string" where
  "join sep [] = []"
| "join sep [x] = x"
| "join sep (x # y # ys) = x @ sep @ join sep (y # ys)"

text \<open>
  \<open>int(s)\<close> on a string without underscores: surrounding white space is dropped, one
  sign is allowed, the rest must be a non-empty run of decimal digits; anything else
  raises \<open>ValueError\<close>. Strings are byte strings here, so only ASCII is covered.
\<close>

definition is_space :: "char \<Rightarrow> bool" where
  "is_space c = (let n = (of_char c :: nat) in (9 \<le> n \<and> n \<le> 13) \<or> (28 \<le> n \<and> n \<le> 32))"

definition is_digit :: "char \<Rightarrow> bool" where
  "is_digit c = (let n = (of_char c :: nat) in 48 \<le> n \<and> n \<le> 57)"

definition digit_val :: "char \<Rightarrow> int" where
  "digit_val c = int (of_char c) - 48"

definition strip :: "string \<Rightarrow> string" where
  "strip s = rev (dropWhile is_space (rev (dropWhile is_space s)))"

definition digits_val :: "string \<Rightarrow> int" where
  "digits_val ds = foldl (\<lambda>a c. 10 * a + digit_val c) 0 ds"

definition py_int :: "string \<Rightarrow> error + int" where
  "py_int s =
     (let t = strip s;
          (sgn, body) = (case t of
                           [] \<Rightarrow> (1, [])
                         | c # r \<Rightarrow> if c = CHR ''-'' then (- 1, r)
                                    else if c = CHR ''+'' then (1, r) else (1, t))
      in if body \<noteq> [] \<and> list_all is_digit body then Inr (sgn * digits_val body)
         else Inl ValueError)"

text \<open>\<open>s.split('_')[0]\<close>: the part of \<open>s\<close> before its first underscore.\<close>

definition split_head :: "string \<Rightarrow> string" where
  "split_head s = takeWhile (\<lambda>c. c \<noteq> CHR ''_'') s"

subsection \<open>\<open>Evaluation.__init__\<close>\<close>

text \<open>
  The constructor, given what \<open>load_datasets\<close> returned and the distance tables that
  the shortest-path library computed for the scans. A later item with the same
  \<open>path_id\<close> replaces an earlier one in \<open>self.gt\<close>.
\<close>

definition item_instr_ids :: "gt_item \<Rightarrow> string list" where
  "item_instr_ids item =
     map (\<lambda>i. show_int (path_id item) @ ''_'' @ show_nat i) [0..<3]"

definition Evaluation_init ::
  "string list \<Rightarrow> gt_item list \<Rightarrow> (string \<rightharpoonup> (viewpoint \<rightharpoonup> (viewpoint \<rightharpoonup> real))) \<Rightarrow> Evaluation" where
  "Evaluation_init splts items dists =
     \<lparr>error_margin = 3,
      splits = splts,
      gt = fold (\<lambda>item m. m(path_id item \<mapsto> item)) items Map.empty,
      instr_ids = fset_of_list (concat (map item_instr_ids items)),
      scans = fset_of_list (map scan items),
      distances = dists\<rparr>"

subsection \<open>\<open>Evaluation._get_nearest\<close>\<close>

text \<open>\<open>self.distances[scan][a][b]\<close>; a missing key at any level is a \<open>KeyError\<close>.\<close>

definition dist_lookup :: "Evaluation \<Rightarrow> string \<Rightarrow> viewpoint \<Rightarrow> viewpoint \<Rightarrow> error + real" where
  "dist_lookup self sc a b =
     (case distances self sc of
        None \<Rightarrow> Inl KeyError
      | Some t \<Rightarrow> (case t a of
                    None \<Rightarrow> Inl KeyError
                  | Some row \<Rightarrow> (case row b of None \<Rightarrow> Inl KeyError | Some d \<Rightarrow> Inr d)))"

text \<open>The \<open>for item in path\<close> loop of \<open>_get_nearest\<close>, on the pair \<open>(near_id, near_d)\<close>.\<close>

fun nearest_loop ::
  "Evaluation \<Rightarrow> string \<Rightarrow> viewpoint \<Rightarrow> step list \<Rightarrow> viewpoint \<times> real \<Rightarrow> error + viewpoint" where
  "nearest_loop self sc goal_id [] (near_id, near_d) = Inr near_id"
| "nearest_loop self sc goal_id (item # rest) (near_id, near_d) =
     (case dist_lookup self sc (fst item) goal_id of
        Inl e \<Rightarrow> Inl e
      | Inr d \<Rightarrow> if d < near_d then nearest_loop self sc goal_id rest (fst item, d)
                 else nearest_loop self sc goal_id rest (near_id, near_d))"

definition get_nearest :: "Evaluation \<Rightarrow> string \<Rightarrow> viewpoint \<Rightarrow> step list \<Rightarrow> error + viewpoint" where
  "get_nearest self sc goal_id traj =
     (case traj of
        [] \<Rightarrow> Inl IndexError
      | item # _ \<Rightarrow>
          (case dist_lookup self sc (fst item) goal_id of
             Inl e \<Rightarrow> Inl e
           | Inr near_d \<Rightarrow> nearest_loop self sc goal_id traj (fst item, near_d)))"

subsection \<open>\<open>Evaluation._score_item\<close>\<close>

text \<open>
  The two nested \<open>range\<close> loops that count aligned steps. \<open>align_step\<close> is the loop
  body at \<open>(idx, gt_idx)\<close>, \<open>align_inner\<close> the inner loop for one \<open>idx\<close>. The state is
  \<open>(point_cnt, point_match)\<close>. \<open>range(len(xs)-1)\<close> is empty for an empty list, as
  \<open>[0..<length xs - 1]\<close> is.
\<close>

definition align_step :: "viewpoint list \<Rightarrow> step list \<Rightarrow> nat \<Rightarrow> nat \<Rightarrow> nat \<times> nat \<Rightarrow> nat \<times> nat" where
  "align_step gt_path traj idx gt_idx = (\<lambda>(point_cnt, point_match).
     if gt_path ! gt_idx = fst (traj ! idx)
     then (if gt_path ! (gt_idx + 1) = fst (traj ! (idx + 1))
           then (point_cnt + 1, point_match + 1)
           else (point_cnt + 1, point_match))
     else (point_cnt, point_match))"

definition align_inner :: "viewpoint list \<Rightarrow> step list \<Rightarrow> nat \<Rightarrow> nat \<times> nat \<Rightarrow> nat \<times> nat" where
  "align_inner gt_path traj idx acc = fold (align_step gt_path traj idx) [0..<length gt_path - 1] acc"

definition step_alignment :: "viewpoint list \<Rightarrow> step list \<Rightarrow> nat \<times> nat" where
  "step_alignment gt_path traj = fold (align_inner gt_path traj) [0..<length traj - 1] (0, 0)"

text \<open>The loop that adds up the length of the trajectory, on \<open>distance\<close> and \<open>prev\<close>.\<close>

fun length_loop :: "Evaluation \<Rightarrow> string \<Rightarrow> real \<Rightarrow> step \<Rightarrow> step list \<Rightarrow> error + real" where
  "length_loop self sc distance prev [] = Inr distance"
| "length_loop self sc distance prev (cur # rest) =
     (case dist_lookup self sc (fst prev) (fst cur) of
        Inl e \<Rightarrow> Inl e
      | Inr d \<Rightarrow> length_loop self sc (distance + d) cur rest)"

definition start_msg :: string where
  "start_msg = ''Result trajectories should include the start position''"

text \<open>
  \<open>_score_item\<close>. The result is the pair \<open>(point_cnt, point_match)\<close> or the error
  raised, with the score lists as they are at that moment. The diagnostic printing for
  the five listed instruction ids changes nothing and is left out.
\<close>

definition score_item ::
  "Evaluation \<Rightarrow> scores \<Rightarrow> string \<Rightarrow> step list \<Rightarrow> (error + nat \<times> nat) \<times> scores" where
  "score_item self sc iid traj =
     (case py_int (split_head iid) of
        Inl e \<Rightarrow> (Inl e, sc)
      | Inr pid \<Rightarrow>
     (case gt self pid of
        None \<Rightarrow> (Inl KeyError, sc)
      | Some g \<Rightarrow>
     (case path g of
        [] \<Rightarrow> (Inl IndexError, sc)
      | start # gt_rest \<Rightarrow>
     (case traj of
        [] \<Rightarrow> (Inl IndexError, sc)
      | p0 # traj_rest \<Rightarrow>
     if start \<noteq> fst p0 then (Inl (AssertionError start_msg), sc)
     else
       let goal = last (path g) in
     (case gt_rest of
        [] \<Rightarrow> (Inl IndexError, sc)
      | first_step # _ \<Rightarrow>
       let (point_cnt, point_match) = step_alignment (path g) traj;
           final_position = fst (last traj) in
     (case get_nearest self (scan g) goal traj of
        Inl e \<Rightarrow> (Inl e, sc)
      | Inr nearest_position \<Rightarrow>
     (case dist_lookup self (scan g) final_position goal of
        Inl e \<Rightarrow> (Inl e, sc)
      | Inr nav \<Rightarrow>
       let sc1 = sc\<lparr>nav_errors := nav_errors sc @ [nav]\<rparr> in
     (case dist_lookup self (scan g) nearest_position goal of
        Inl e \<Rightarrow> (Inl e, sc1)
      | Inr orc \<Rightarrow>
       let sc2 = sc1\<lparr>oracle_errors := oracle_errors sc1 @ [orc]\<rparr>;
           sc3 = sc2\<lparr>trajectory_steps := trajectory_steps sc2 @ [int (length traj) - 1]\<rparr> in
     (case length_loop self (scan g) 0 p0 traj_rest of
        Inl e \<Rightarrow> (Inl e, sc3)
      | Inr distance \<Rightarrow>
       let sc4 = sc3\<lparr>trajectory_lengths := trajectory_lengths sc3 @ [distance]\<rparr>;
           is_success = (nav < error_margin self) in
       if splits self = [''test'']
       then (Inr (point_cnt, point_match),
             sc4\<lparr>success_path_length := success_path_length sc4 @ [0]\<rparr>)
       else
     (case dist_lookup self (scan g) start goal of
        Inl e \<Rightarrow> (Inl e, sc4)
      | Inr d \<Rightarrow>
       if max d distance = 0 then (Inl ZeroDivisionError, sc4)
       else (Inr (point_cnt, point_match),
             sc4\<lparr>success_path_length := success_path_length sc4 @
                    [(if is_success then 1 else 0) * d / max d distance]\<rparr>)))))))))))"

subsection \<open>\<open>Evaluation.score\<close>\<close>

record score_summary =
  nav_error :: real
  oracle_error :: real
  steps :: real
  lengths :: real
  spl :: real
  success_rate :: real
  oracle_rate :: real

text \<open>
  The loop over the entries of the results file. The state is the set of instruction
  ids still expected, the score lists and the two counters. An entry whose id is not
  (or no longer) in the set is skipped.
\<close>

fun score_loop ::
  "Evaluation \<Rightarrow> result_item list \<Rightarrow> string fset \<Rightarrow> scores \<Rightarrow> nat \<times> nat \<Rightarrow>
     (error + string fset \<times> nat \<times> nat) \<times> scores" where
  "score_loop self [] ids sc (point_cnt, point_match) = (Inr (ids, point_cnt, point_match), sc)"
| "score_loop self (item # rest) ids sc (point_cnt, point_match) =
     (if instr_id item |\<in>| ids
      then (case score_item self sc (instr_id item) (trajectory item) of
              (Inl e, sc') \<Rightarrow> (Inl e, sc')
            | (Inr (c1, c2), sc') \<Rightarrow>
                score_loop self rest (ids |-| {|instr_id item|}) sc' (point_cnt + c1, point_match + c2))
      else score_loop self rest ids sc (point_cnt, point_match))"

text \<open>
  \<open>'Missing %d of %d instruction ids from %s - not in %s'
     % (len(instr_ids), len(self.instr_ids), ",".join(self.splits), output_file)\<close>
\<close>

definition missing_msg :: "nat \<Rightarrow> nat \<Rightarrow> string list \<Rightarrow> string \<Rightarrow> string" where
  "missing_msg k n splts output_file =
     ''Missing '' @ show_nat k @ '' of '' @ show_nat n @ '' instruction ids from ''
       @ join '','' splts @ '' - not in '' @ output_file"

text \<open>\<open>np.average\<close> of a non-empty list.\<close>

definition average :: "real list \<Rightarrow> real" where
  "average xs = sum_list xs / real (length xs)"

text \<open>
  \<open>score\<close>, given the name of the results file and its parsed content. The second
  assertion has no message. The two rates divide by the lengths of the lists and the
  final \<open>print\<close> divides \<open>point_match\<close> by \<open>point_cnt\<close>; each division raises
  \<open>ZeroDivisionError\<close> on a zero divisor.
\<close>

definition score :: "Evaluation \<Rightarrow> string \<Rightarrow> result_item list \<Rightarrow> (error + score_summary) \<times> scores" where
  "score self output_file results =
     (case score_loop self results (instr_ids self) empty_scores (0, 0) of
        (Inl e, sc) \<Rightarrow> (Inl e, sc)
      | (Inr (ids, point_cnt, point_match), sc) \<Rightarrow>
          if fcard ids \<noteq> 0
          then (Inl (AssertionError
                  (missing_msg (fcard ids) (fcard (instr_ids self)) (splits self) output_file)), sc)
          else if length (nav_errors sc) \<noteq> fcard (instr_ids self)
          then (Inl (AssertionError []), sc)
          else if length (nav_errors sc) = 0 then (Inl ZeroDivisionError, sc)
          else if length (oracle_errors sc) = 0 then (Inl ZeroDivisionError, sc)
          else if point_cnt = 0 then (Inl ZeroDivisionError, sc)
          else (Inr \<lparr>nav_error = average (nav_errors sc),
                     oracle_error = average (oracle_errors sc),
                     steps = average (map real_of_int (trajectory_steps sc)),
                     lengths = average (trajectory_lengths sc),
                     spl = average (success_path_length sc),
                     success_rate =
                       real (length (filter (\<lambda>i. i < error_margin self) (nav_errors sc)))
                         / real (length (nav_errors sc)),
                     oracle_rate =
                       real (length (filter (\<lambda>i. i < error_margin self) (oracle_errors sc)))
                         / real (length (oracle_errors sc))\<rparr>, sc))"

subsection \<open>\<open>load_nav_graphs\<close> (utils.py)\<close>

text \<open>One record of a connectivity file.\<close>

record conn_item =
  image_id :: string
  included :: bool
  pose :: "real list"
  unobstructed :: "bool list"

text \<open>
  The part of an \<open>nx.Graph\<close> that the loader builds: the symmetric adjacency with the
  \<open>weight\<close> of each edge, and the \<open>position\<close> attribute of the nodes.
\<close>

record nav_graph =
  adj :: "string \<Rightarrow> string \<rightharpoonup> real"
  position :: "string \<rightharpoonup> real list"

definition empty_graph :: nav_graph where
  "empty_graph = \<lparr>adj = (\<lambda>u. Map.empty), position = Map.empty\<rparr>"

text \<open>\<open>G.add_edge(u, v, weight=w)\<close>: both directions are stored, a weight already there is replaced.\<close>

definition add_edge :: "nav_graph \<Rightarrow> string \<Rightarrow> string \<Rightarrow> real \<Rightarrow> nav_graph" where
  "add_edge G u v w =
     (let a1 = (adj G)(u := (adj G u)(v \<mapsto> w));
          a2 = a1(v := (a1 v)(u \<mapsto> w))
      in G\<lparr>adj := a2\<rparr>)"

text \<open>
  The inner function \<open>distance\<close>; reading index 3, 7 or 11 of a shorter pose raises
  \<open>IndexError\<close>. \<open>x ** 0.5\<close> is the square root.
\<close>

definition distance :: "conn_item \<Rightarrow> conn_item \<Rightarrow> error + real" where
  "distance pose1 pose2 =
     (if 11 < length (pose pose1) \<and> 11 < length (pose pose2)
      then Inr (sqrt ((pose pose1 ! 3 - pose pose2 ! 3)\<^sup>2
                     + (pose pose1 ! 7 - pose pose2 ! 7)\<^sup>2
                     + (pose pose1 ! 11 - pose pose2 ! 11)\<^sup>2))
      else Inl IndexError)"

text \<open>A loop whose body may raise: the first error ends it.\<close>

fun foldM :: "('a \<Rightarrow> 's \<Rightarrow> error + 's) \<Rightarrow> 'a list \<Rightarrow> 's \<Rightarrow> error + 's" where
  "foldM f [] s = Inr s"
| "foldM f (x # xs) s = (case f x s of Inl e \<Rightarrow> Inl e | Inr s' \<Rightarrow> foldM f xs s')"

definition undirected_msg :: string where
  "undirected_msg = ''Graph should be undirected''"

text \<open>The body of \<open>for j, conn in enumerate(item['unobstructed'])\<close>, for the record \<open>item\<close> at index \<open>i\<close>.\<close>

definition edge_step :: "conn_item list \<Rightarrow> nat \<Rightarrow> conn_item \<Rightarrow> nat \<times> bool \<Rightarrow> nav_graph \<Rightarrow> error + nav_graph" where
  "edge_step data i item = (\<lambda>(j, conn) G.
     if \<not> conn then Inr G
     else if \<not> j < length data then Inl IndexError
     else if \<not> included (data ! j) then Inr G
     else if \<not> 11 < length (pose item) then Inl IndexError
     else
       let G1 = G\<lparr>position := (position G)(image_id item \<mapsto>
                    [pose item ! 3, pose item ! 7, pose item ! 11])\<rparr>
       in if \<not> i < length (unobstructed (data ! j)) then Inl IndexError
          else if \<not> unobstructed (data ! j) ! i then Inl (AssertionError undirected_msg)
          else (case distance item (data ! j) of
                  Inl e \<Rightarrow> Inl e
                | Inr w \<Rightarrow> Inr (add_edge G1 (image_id item) (image_id (data ! j)) w)))"

text \<open>The body of \<open>for i, item in enumerate(data)\<close>.\<close>

definition item_step :: "conn_item list \<Rightarrow> nat \<times> conn_item \<Rightarrow> nav_graph \<Rightarrow> error + nav_graph" where
  "item_step data = (\<lambda>(i, item) G.
     if included item then foldM (edge_step data i item) (enumerate 0 (unobstructed item)) G
     else Inr G)"

text \<open>The graph of one scan, from the parsed content of its connectivity file.\<close>

definition load_nav_graph :: "conn_item list \<Rightarrow> error + nav_graph" where
  "load_nav_graph data = foldM (item_step data) (enumerate 0 data) empty_graph"

text \<open>\<open>load_nav_graphs\<close>, given each scan with the content of its file.\<close>

definition load_nav_graphs :: "(string \<times> conn_item list) list \<Rightarrow> error + (string \<rightharpoonup> nav_graph)" where
  "load_nav_graphs files =
     foldM (\<lambda>(scn, data) graphs.
              case load_nav_graph data of
                Inl e \<Rightarrow> Inl e
              | Inr G \<Rightarrow> Inr (graphs(scn \<mapsto> G)))
           files Map.empty"

section \<open>Notions of the specification\<close>

text \<open>
  The distance that the table holds for a pair of viewpoints, for use in statements
  where the lookup succeeds.
\<close>

definition dist_of :: "Evaluation \<Rightarrow> string \<Rightarrow> viewpoint \<Rightarrow> viewpoint \<Rightarrow> real" where
  "dist_of self sc a b = (case dist_lookup self sc a b of Inr d \<Rightarrow> d | Inl e \<Rightarrow> 0)"

text \<open>The sum of the distances between consecutive viewpoints of a sequence.\<close>

definition consecutive_sum :: "Evaluation \<Rightarrow> string \<Rightarrow> viewpoint list \<Rightarrow> real" where
  "consecutive_sum self sc vs = sum_list (map (\<lambda>(a, b). dist_of self sc a b) (zip vs (tl vs)))"

text \<open>The table has an entry for every pair of consecutive viewpoints of a sequence.\<close>

definition consecutive_defined :: "Evaluation \<Rightarrow> string \<Rightarrow> viewpoint list \<Rightarrow> bool" where
  "consecutive_defined self sc vs =
     list_all (\<lambda>(a, b). isl (dist_lookup self sc a b) = False) (zip vs (tl vs))"

text \<open>
  The pairs of positions that the step-alignment counters count: a position of the
  submission and a position of the ground truth, neither the last one, that hold the same
  viewpoint; a pair is matched when the next positions hold the same viewpoint as well.
\<close>

definition candidate_pairs :: "viewpoint list \<Rightarrow> step list \<Rightarrow> (nat \<times> nat) set" where
  "candidate_pairs gt_path traj =
     {(i, j). i < length traj - 1 \<and> j < length gt_path - 1 \<and> gt_path ! j = fst (traj ! i)}"

definition matched_pairs :: "viewpoint list \<Rightarrow> step list \<Rightarrow> (nat \<times> nat) set" where
  "matched_pairs gt_path traj =
     {(i, j). i < length traj - 1 \<and> j < length gt_path - 1 \<and> gt_path ! j = fst (traj ! i)
              \<and> gt_path ! (j + 1) = fst (traj ! (i + 1))}"

text \<open>
  The position of a viewpoint, the translation part of its pose (a 4 by 4 matrix, row by
  row), and the Euclidean distance of two positions.
\<close>

definition position_of :: "conn_item \<Rightarrow> real \<times> real \<times> real" where
  "position_of item = (pose item ! 3, pose item ! 7, pose item ! 11)"

definition euclidean :: "real \<times> real \<times> real \<Rightarrow> real \<times> real \<times> real \<Rightarrow> real" where
  "euclidean p q =
     (case p of (x1, y1, z1) \<Rightarrow> case q of (x2, y2, z2) \<Rightarrow>
        sqrt ((x1 - x2)\<^sup>2 + (y1 - y2)\<^sup>2 + (z1 - z2)\<^sup>2))"

text \<open>
  A connectivity file as the specification describes it: every pose has 16 elements and
  every \<open>unobstructed\<close> list has one element per record.
\<close>

definition well_formed :: "conn_item list \<Rightarrow> bool" where
  "well_formed data =
     list_all (\<lambda>item. length (pose item) = 16 \<and> length (unobstructed item) = length data) data"

text \<open>
  Record \<open>i\<close> would get an edge to record \<open>j\<close> (both included, \<open>j\<close> unobstructed
  from \<open>i\<close>), but \<open>i\<close> is not marked unobstructed from \<open>j\<close>.
\<close>

definition one_way :: "conn_item list \<Rightarrow> nat \<Rightarrow> nat \<Rightarrow> bool" where
  "one_way data i j =
     (i < length data \<and> included (data ! i) \<and>
      j < length (unobstructed (data ! i)) \<and> unobstructed (data ! i) ! j \<and>
      j < length data \<and> included (data ! j) \<and>
      (i < length (unobstructed (data ! j)) \<and> unobstructed (data ! j) ! i) = False)"

text \<open>
  What the specification asks of an edge between the viewpoints \<open>u\<close> and \<open>v\<close> with
  weight \<open>w\<close>: they are the ids of two records that are both included and each marked
  unobstructed from the other, and \<open>w\<close> is the Euclidean distance of their positions.
\<close>

definition edge_between :: "conn_item list \<Rightarrow> string \<Rightarrow> string \<Rightarrow> real \<Rightarrow> bool" where
  "edge_between data u v w =
     (\<exists>i j. i < length data \<and> j < length data \<and>
        u = image_id (data ! i) \<and> v = image_id (data ! j) \<and>
        included (data ! i) \<and> included (data ! j) \<and>
        j < length (unobstructed (data ! i)) \<and> unobstructed (data ! i) ! j \<and>
        i < length (unobstructed (data ! j)) \<and> unobstructed (data ! j) ! i \<and>
        11 < length (pose (data ! i)) \<and> 11 < length (pose (data ! j)) \<and>
        w = euclidean (position_of (data ! i)) (position_of (data ! j)))"

text \<open>Every edge of a graph is one that the specification allows.\<close>

definition edges_ok :: "conn_item list \<Rightarrow> nav_graph \<Rightarrow> bool" where
  "edges_ok data G = (\<forall>u v w. adj G u v = Some w \<longrightarrow> edge_between data u v w)"

section \<open>Example inputs\<close>

text \<open>
  Three viewpoints at the corners of a right triangle with sides 3, 4 and 5, pairwise
  connected: \<open>A = (0,0,0)\<close>, \<open>B = (3,0,0)\<close>, \<open>C = (3,4,0)\<close>. Every edge is the
  shortest path between its ends, so this is the distance table of that graph.
\<close>

definition table345 :: "viewpoint \<rightharpoonup> (viewpoint \<rightharpoonup> real)" where
  "table345 = [''A'' \<mapsto> [''A'' \<mapsto> 0, ''B'' \<mapsto> 3, ''C'' \<mapsto> 5],
               ''B'' \<mapsto> [''A'' \<mapsto> 3, ''B'' \<mapsto> 0, ''C'' \<mapsto> 4],
               ''C'' \<mapsto> [''A'' \<mapsto> 5, ''B'' \<mapsto> 4, ''C'' \<mapsto> 0]]"

definition gt7 :: gt_item where
  "gt7 = \<lparr>path_id = 7, scan = ''s'', path = [''A'', ''B'', ''C''], instructions = []\<rparr>"

definition ev7 :: Evaluation where
  "ev7 = Evaluation_init [''val_seen''] [gt7] [''s'' \<mapsto> table345]"

definition traj_ACB :: "step list" where
  "traj_ACB = [(''A'', 0, 0), (''C'', 0, 0), (''B'', 0, 0)]"

definition gt8 :: gt_item where
  "gt8 = \<lparr>path_id = 8, scan = ''s'', path = [''A'', ''B''], instructions = []\<rparr>"

definition ev8 :: Evaluation where
  "ev8 = Evaluation_init [''val_seen''] [gt8] [''s'' \<mapsto> table345]"

text \<open>The same ground truth, evaluated as the held-out split.\<close>

definition ev_test :: Evaluation where
  "ev_test = Evaluation_init [''test''] [gt8] [''s'' \<mapsto> table345]"

text \<open>A ground-truth item whose path is a single viewpoint.\<close>

definition gt9 :: gt_item where
  "gt9 = \<lparr>path_id = 9, scan = ''s'', path = [''A''], instructions = []\<rparr>"

definition ev9 :: Evaluation where
  "ev9 = Evaluation_init [''val_seen''] [gt9] [''s'' \<mapsto> table345]"

definition traj_ABC :: "step list" where
  "traj_ABC = [(''A'', 0, 0), (''B'', 0, 0), (''C'', 0, 0)]"

definition traj_AB :: "step list" where
  "traj_AB = [(''A'', 0, 0), (''B'', 0, 0)]"

definition traj_A :: "step list" where
  "traj_A = [(''A'', 0, 0)]"

definition traj_B :: "step list" where
  "traj_B = [(''B'', 0, 0)]"

text \<open>Results files for the ground truth with path \<open>A, B\<close> (instruction ids \<open>8_0, 8_1, 8_2\<close>).\<close>

definition entry :: "string \<Rightarrow> step list \<Rightarrow> result_item" where
  "entry iid traj = \<lparr>instr_id = iid, trajectory = traj\<rparr>"

definition res8_ok :: "result_item list" where
  "res8_ok = [entry ''8_0'' traj_AB, entry ''8_1'' traj_AB, entry ''8_2'' traj_AB]"

text \<open>The id \<open>8_0\<close> twice.\<close>

definition res8_dup :: "result_item list" where
  "res8_dup = [entry ''8_0'' traj_AB, entry ''8_0'' traj_AB, entry ''8_1'' traj_AB, entry ''8_2'' traj_AB]"

text \<open>A second entry for \<open>8_0\<close> whose trajectory starts at \<open>B\<close>, not at the start \<open>A\<close>.\<close>

definition res8_bad_dup :: "result_item list" where
  "res8_bad_dup = [entry ''8_0'' traj_AB, entry ''8_1'' traj_AB, entry ''8_2'' traj_AB, entry ''8_0'' traj_B]"

text \<open>The id \<open>8_2\<close> is missing; there is an entry for an id that is not expected.\<close>

definition res8_missing :: "result_item list" where
  "res8_missing = [entry ''8_0'' traj_AB, entry ''8_1'' traj_AB, entry ''99_0'' traj_B]"

text \<open>The entry for \<open>8_1\<close> starts at \<open>B\<close>.\<close>

definition res8_bad :: "result_item list" where
  "res8_bad = [entry ''8_0'' traj_AB, entry ''8_1'' traj_B, entry ''8_2'' traj_AB]"

definition summary8 :: score_summary where
  "summary8 = \<lparr>nav_error = 0, oracle_error = 0, steps = 1, lengths = 3, spl = 1,
     success_rate = 1, oracle_rate = 1\<rparr>"

definition scores8 :: scores where
  "scores8 = \<lparr>nav_errors = [0, 0, 0], oracle_errors = [0, 0, 0], trajectory_steps = [1, 1, 1],
     trajectory_lengths = [3, 3, 3], success_path_length = [1, 1, 1]\<rparr>"

text \<open>The connectivity file of the triangle, and one with a one-way connection.\<close>

definition pose_at :: "real \<Rightarrow> real \<Rightarrow> real \<Rightarrow> real list" where
  "pose_at x y z = [1, 0, 0, x, 0, 1, 0, y, 0, 0, 1, z, 0, 0, 0, 1]"

definition data345 :: "conn_item list" where
  "data345 =
     [\<lparr>image_id = ''A'', included = True, pose = pose_at 0 0 0, unobstructed = [False, True, True]\<rparr>,
      \<lparr>image_id = ''B'', included = True, pose = pose_at 3 0 0, unobstructed = [True, False, True]\<rparr>,
      \<lparr>image_id = ''C'', included = True, pose = pose_at 3 4 0, unobstructed = [True, True, False]\<rparr>]"

definition data_one_way :: "conn_item list" where
  "data_one_way =
     [\<lparr>image_id = ''A'', included = True, pose = pose_at 0 0 0, unobstructed = [False, True]\<rparr>,
      \<lparr>image_id = ''B'', included = True, pose = pose_at 3 0 0, unobstructed = [False, False]\<rparr>]"

section \<open>Properties\<close>

subsection \<open>The nearest visited viewpoint\<close>

lemma dist_lookup_Inr_iff:
  "dist_lookup self sc a b = Inr d \<longleftrightarrow>
     (\<exists>t row. distances self sc = Some t \<and> t a = Some row \<and> row b = Some d)"
  by (auto simp: dist_lookup_def split: option.splits)

lemma nearest_loop_Inr:
  assumes "nearest_loop self sc goal xs (nid, nd) = Inr r"
    and "dist_lookup self sc nid goal = Inr nd"
  shows "\<exists>d. dist_lookup self sc r goal = Inr d \<and> d \<le> nd \<and> (r = nid \<or> r \<in> fst ` set xs) \<and>
           (\<forall>item\<in>set xs. \<exists>d'. dist_lookup self sc (fst item) goal = Inr d' \<and> d \<le> d')"
  using assms
proof (induction xs arbitrary: nid nd)
  case Nil
  then show ?case by simp
next
  case (Cons item rest)
  from Cons.prems(1) obtain d0 where d0: "dist_lookup self sc (fst item) goal = Inr d0"
    by (auto split: sum.splits)
  show ?case
  proof (cases "d0 < nd")
    case True
    with Cons.prems d0 have "nearest_loop self sc goal rest (fst item, d0) = Inr r" by simp
    from Cons.IH[OF this d0] obtain d where
      "dist_lookup self sc r goal = Inr d" "d \<le> d0" "r = fst item \<or> r \<in> fst ` set rest"
      "\<forall>it\<in>set rest. \<exists>d'. dist_lookup self sc (fst it) goal = Inr d' \<and> d \<le> d'"
      by blast
    with True d0 show ?thesis by (intro exI[of _ d]) auto
  next
    case False
    with Cons.prems d0 have "nearest_loop self sc goal rest (nid, nd) = Inr r" by simp
    from Cons.IH[OF this Cons.prems(2)] obtain d where
      "dist_lookup self sc r goal = Inr d" "d \<le> nd" "r = nid \<or> r \<in> fst ` set rest"
      "\<forall>it\<in>set rest. \<exists>d'. dist_lookup self sc (fst it) goal = Inr d' \<and> d \<le> d'"
      by blast
    with False d0 show ?thesis by (intro exI[of _ d]) auto
  qed
qed

lemma get_nearest_Inr:
  assumes "get_nearest self sc goal traj = Inr r"
  shows "traj \<noteq> [] \<and> r \<in> fst ` set traj \<and>
         (\<exists>d. dist_lookup self sc r goal = Inr d \<and>
           (\<forall>item\<in>set traj. \<exists>d'. dist_lookup self sc (fst item) goal = Inr d' \<and> d \<le> d'))"
proof -
  from assms obtain item rest nd where tr: "traj = item # rest"
    and nd: "dist_lookup self sc (fst item) goal = Inr nd"
    and lp: "nearest_loop self sc goal traj (fst item, nd) = Inr r"
    by (auto simp: get_nearest_def split: list.splits sum.splits)
  from nearest_loop_Inr[OF lp nd] tr show ?thesis by auto
qed



subsection \<open>Scoring one trajectory\<close>

lemma dist_of_eq: "dist_lookup self sc a b = Inr d \<Longrightarrow> dist_of self sc a b = d"
  by (simp add: dist_of_def)

lemma length_loop_iff:
  "length_loop self sc acc prev rest = Inr L \<longleftrightarrow>
     consecutive_defined self sc (map fst (prev # rest)) \<and>
     L = acc + consecutive_sum self sc (map fst (prev # rest))"
proof (induction rest arbitrary: acc prev)
  case Nil
  then show ?case by (auto simp: consecutive_defined_def consecutive_sum_def)
next
  case (Cons cur rest)
  show ?case
  proof (cases "dist_lookup self sc (fst prev) (fst cur)")
    case (Inl e)
    then show ?thesis by (simp add: consecutive_defined_def)
  next
    case (Inr d)
    have "length_loop self sc acc prev (cur # rest) = length_loop self sc (acc + d) cur rest"
      using Inr by simp
    also have "\<dots> = Inr L \<longleftrightarrow> consecutive_defined self sc (map fst (cur # rest)) \<and>
        L = (acc + d) + consecutive_sum self sc (map fst (cur # rest))"
      by (rule Cons.IH)
    finally show ?thesis using Inr
      by (auto simp: consecutive_defined_def consecutive_sum_def dist_of_def)
  qed
qed

lemma score_item_Inr:
  assumes "score_item self sc iid traj = (Inr r, sc')"
  shows "\<exists>pid g start first_step gt_rest p0 traj_rest nearest nav orc L v.
     py_int (split_head iid) = Inr pid \<and> gt self pid = Some g \<and>
     path g = start # first_step # gt_rest \<and> traj = p0 # traj_rest \<and> fst p0 = start \<and>
     get_nearest self (scan g) (last (path g)) traj = Inr nearest \<and>
     dist_lookup self (scan g) (fst (last traj)) (last (path g)) = Inr nav \<and>
     dist_lookup self (scan g) nearest (last (path g)) = Inr orc \<and>
     length_loop self (scan g) 0 p0 traj_rest = Inr L \<and>
     r = step_alignment (path g) traj \<and>
     sc' = sc\<lparr>nav_errors := nav_errors sc @ [nav],
               oracle_errors := oracle_errors sc @ [orc],
               trajectory_steps := trajectory_steps sc @ [int (length traj) - 1],
               trajectory_lengths := trajectory_lengths sc @ [L],
               success_path_length := success_path_length sc @ [v]\<rparr> \<and>
     (if splits self = [''test''] then v = 0
      else \<exists>d. dist_lookup self (scan g) start (last (path g)) = Inr d \<and> max d L \<noteq> 0 \<and>
             v = (if nav < error_margin self then 1 else 0) * d / max d L)"
  using assms
  unfolding score_item_def
  by (auto simp: Let_def split: sum.splits option.splits list.splits if_splits prod.splits)

subsection \<open>The example inputs, evaluated\<close>

lemma py_int_7: "py_int (split_head ''7_0'') = Inr 7"
  by (simp add: py_int_def split_head_def strip_def is_space_def is_digit_def digits_val_def digit_val_def)

lemma ev7_simps:
  "gt ev7 7 = Some gt7" "splits ev7 = [''val_seen'']" "error_margin ev7 = 3"
  "distances ev7 ''s'' = Some table345" 
  by (simp_all add: ev7_def Evaluation_init_def gt7_def)

lemma dist_ev7:
  "dist_lookup ev7 ''s'' a b = (case table345 a of None \<Rightarrow> Inl KeyError | Some row \<Rightarrow> (case row b of None \<Rightarrow> Inl KeyError | Some d \<Rightarrow> Inr d))"
  by (simp add: dist_lookup_def ev7_simps)

lemma score_item_ev7_ACB:
  "score_item ev7 sc ''7_0'' traj_ACB =
     (Inr (1, 0), sc\<lparr>nav_errors := nav_errors sc @ [4], oracle_errors := oracle_errors sc @ [0],
        trajectory_steps := trajectory_steps sc @ [2], trajectory_lengths := trajectory_lengths sc @ [9],
        success_path_length := success_path_length sc @ [0]\<rparr>)"
  by (simp add: score_item_def py_int_7 ev7_simps gt7_def traj_ACB_def get_nearest_def dist_ev7 table345_def
      step_alignment_def align_inner_def align_step_def upt_rec numeral_2_eq_2)

subsection \<open>Oracle error and navigation error\<close>

text \<open>
  Claim C5. Whenever \<open>_score_item\<close> scores a trajectory (which is then non-empty), the
  oracle error it appends is the least distance to the goal over all visited viewpoints,
  and it is at most the navigation error it appends, the distance from the last visited
  viewpoint to the goal.
\<close>

theorem oracle_le_nav:
  assumes "score_item self sc iid traj = (Inr r, sc')"
  shows "\<exists>pid g orc nav.
           py_int (split_head iid) = Inr pid \<and> gt self pid = Some g \<and>
           oracle_errors sc' = oracle_errors sc @ [orc] \<and>
           nav_errors sc' = nav_errors sc @ [nav] \<and>
           nav = dist_of self (scan g) (fst (last traj)) (last (path g)) \<and>
           orc = Min ((\<lambda>item. dist_of self (scan g) (fst item) (last (path g))) ` set traj) \<and>
           orc \<le> nav"
proof -
  from score_item_Inr[OF assms] obtain pid g p0 traj_rest nearest nav orc L v where
    pid: "py_int (split_head iid) = Inr pid" and g: "gt self pid = Some g"
    and traj: "traj = p0 # traj_rest"
    and near: "get_nearest self (scan g) (last (path g)) traj = Inr nearest"
    and nav: "dist_lookup self (scan g) (fst (last traj)) (last (path g)) = Inr nav"
    and orc: "dist_lookup self (scan g) nearest (last (path g)) = Inr orc"
    and sc': "sc' = sc\<lparr>nav_errors := nav_errors sc @ [nav],
               oracle_errors := oracle_errors sc @ [orc],
               trajectory_steps := trajectory_steps sc @ [int (length traj) - 1],
               trajectory_lengths := trajectory_lengths sc @ [L],
               success_path_length := success_path_length sc @ [v]\<rparr>"
    by blast
  let ?f = "\<lambda>item. dist_of self (scan g) (fst item) (last (path g))"
  from get_nearest_Inr[OF near] orc have
    mem: "nearest \<in> fst ` set traj" and
    le: "\<forall>item\<in>set traj. \<exists>d'. dist_lookup self (scan g) (fst item) (last (path g)) = Inr d' \<and> orc \<le> d'"
    by auto
  have le': "\<And>item. item \<in> set traj \<Longrightarrow> orc \<le> ?f item"
    using le by (auto simp: dist_of_def)
  from mem obtain it where it: "it \<in> set traj" "fst it = nearest" by auto
  have "?f it = orc" using it orc by (simp add: dist_of_def)
  then have "orc \<in> ?f ` set traj" using it by force
  then have min: "Min (?f ` set traj) = orc"
    using le' by (intro Min_eqI) auto
  have "last traj \<in> set traj" using traj by simp
  from le'[OF this] nav have "orc \<le> nav" by (simp add: dist_of_def)
  with pid g sc' nav min show ?thesis
    by (simp add: dist_of_def)
qed

theorem oracle_le_nav_witness:
  "score_item ev7 empty_scores ''7_0'' traj_ACB =
     (Inr (1, 0), empty_scores\<lparr>nav_errors := [4], oracle_errors := [0], trajectory_steps := [2],
        trajectory_lengths := [9], success_path_length := [0]\<rparr>) \<and>
   (\<exists>pid g orc nav.
       py_int (split_head ''7_0'') = Inr pid \<and> gt ev7 pid = Some g \<and>
       [0] = [orc] \<and> [4] = [nav] \<and>
       nav = dist_of ev7 (scan g) (fst (last traj_ACB)) (last (path g)) \<and>
       orc = Min ((\<lambda>item. dist_of ev7 (scan g) (fst item) (last (path g))) ` set traj_ACB) \<and>
       orc \<le> nav)"
proof -
  have run: "score_item ev7 empty_scores ''7_0'' traj_ACB =
     (Inr (1, 0), empty_scores\<lparr>nav_errors := [4], oracle_errors := [0], trajectory_steps := [2],
        trajectory_lengths := [9], success_path_length := [0]\<rparr>)"
    by (simp add: score_item_ev7_ACB empty_scores_def)
  from oracle_le_nav[OF run] run show ?thesis
    by (simp add: empty_scores_def)
qed

lemma py_int_8: "py_int (split_head ''8_0'') = Inr 8" "py_int (split_head ''8_1'') = Inr 8"
   "py_int (split_head ''8_2'') = Inr 8"
  by (simp_all add: py_int_def split_head_def strip_def is_space_def is_digit_def digits_val_def digit_val_def)

lemma py_int_9: "py_int (split_head ''9_0'') = Inr 9"
  by (simp add: py_int_def split_head_def strip_def is_space_def is_digit_def digits_val_def digit_val_def)

lemma ev8_simps:
  "gt ev8 8 = Some gt8" "splits ev8 = [''val_seen'']" "error_margin ev8 = 3"
  "distances ev8 ''s'' = Some table345"
  by (simp_all add: ev8_def Evaluation_init_def gt8_def)

lemma ev_test_simps:
  "gt ev_test 8 = Some gt8" "splits ev_test = [''test'']" "error_margin ev_test = 3"
  "distances ev_test ''s'' = Some table345"
  by (simp_all add: ev_test_def Evaluation_init_def gt8_def)

lemma ev9_simps:
  "gt ev9 9 = Some gt9" "splits ev9 = [''val_seen'']" "error_margin ev9 = 3"
  "distances ev9 ''s'' = Some table345"
  by (simp_all add: ev9_def Evaluation_init_def gt9_def)

lemma dist_ev8:
  "dist_lookup ev8 ''s'' a b = (case table345 a of None \<Rightarrow> Inl KeyError | Some row \<Rightarrow> (case row b of None \<Rightarrow> Inl KeyError | Some d \<Rightarrow> Inr d))"
  by (simp add: dist_lookup_def ev8_simps)

lemma dist_ev_test:
  "dist_lookup ev_test ''s'' a b = (case table345 a of None \<Rightarrow> Inl KeyError | Some row \<Rightarrow> (case row b of None \<Rightarrow> Inl KeyError | Some d \<Rightarrow> Inr d))"
  by (simp add: dist_lookup_def ev_test_simps)

lemma score_item_ev7_ABC:
  "score_item ev7 sc ''7_0'' traj_ABC =
     (Inr (2, 2), sc\<lparr>nav_errors := nav_errors sc @ [0], oracle_errors := oracle_errors sc @ [0],
        trajectory_steps := trajectory_steps sc @ [2], trajectory_lengths := trajectory_lengths sc @ [7],
        success_path_length := success_path_length sc @ [5 / 7]\<rparr>)"
  by (simp add: score_item_def py_int_7 ev7_simps gt7_def traj_ABC_def get_nearest_def dist_ev7 table345_def
      step_alignment_def align_inner_def align_step_def upt_rec numeral_2_eq_2)

lemma score_item_ev8_AB:
  "iid \<in> {''8_0'', ''8_1'', ''8_2''} \<Longrightarrow> score_item ev8 sc iid traj_AB =
     (Inr (1, 1), sc\<lparr>nav_errors := nav_errors sc @ [0], oracle_errors := oracle_errors sc @ [0],
        trajectory_steps := trajectory_steps sc @ [1], trajectory_lengths := trajectory_lengths sc @ [3],
        success_path_length := success_path_length sc @ [1]\<rparr>)"
  by (auto simp add: score_item_def py_int_8 ev8_simps gt8_def traj_AB_def get_nearest_def dist_ev8 table345_def
      step_alignment_def align_inner_def align_step_def)

lemma score_item_ev_test_AB:
  "score_item ev_test sc ''8_0'' traj_AB =
     (Inr (1, 1), sc\<lparr>nav_errors := nav_errors sc @ [0], oracle_errors := oracle_errors sc @ [0],
        trajectory_steps := trajectory_steps sc @ [1], trajectory_lengths := trajectory_lengths sc @ [3],
        success_path_length := success_path_length sc @ [0]\<rparr>)"
  by (simp add: score_item_def py_int_8 ev_test_simps gt8_def traj_AB_def get_nearest_def dist_ev_test table345_def
      step_alignment_def align_inner_def align_step_def)

subsection \<open>Success weighted by path length\<close>

text \<open>
  Claim C4. Whenever \<open>_score_item\<close> scores an instruction, the SPL value it appends is
  0 when the active splits are exactly \<open>['test']\<close>; for every other choice of splits it
  is the success indicator (navigation error below the error margin) times the table
  distance from the ground-truth start to the goal, divided by the maximum of that
  distance and the trajectory length, the sum of the distances between consecutive
  visited viewpoints.
\<close>

theorem spl_value:
  assumes "score_item self sc iid traj = (Inr r, sc')"
  shows "\<exists>pid g nav L v.
           py_int (split_head iid) = Inr pid \<and> gt self pid = Some g \<and>
           nav_errors sc' = nav_errors sc @ [nav] \<and>
           trajectory_lengths sc' = trajectory_lengths sc @ [L] \<and>
           success_path_length sc' = success_path_length sc @ [v] \<and>
           nav = dist_of self (scan g) (fst (last traj)) (last (path g)) \<and>
           L = consecutive_sum self (scan g) (map fst traj) \<and>
           v = (if splits self = [''test''] then 0
                else (if nav < error_margin self then 1 else 0)
                       * dist_of self (scan g) (hd (path g)) (last (path g))
                       / max (dist_of self (scan g) (hd (path g)) (last (path g))) L)"
proof -
  from score_item_Inr[OF assms] obtain pid g start first_step gt_rest p0 traj_rest nav orc L v where
    pid: "py_int (split_head iid) = Inr pid" and g: "gt self pid = Some g"
    and p: "path g = start # first_step # gt_rest"
    and traj: "traj = p0 # traj_rest"
    and nav: "dist_lookup self (scan g) (fst (last traj)) (last (path g)) = Inr nav"
    and L: "length_loop self (scan g) 0 p0 traj_rest = Inr L"
    and sc': "sc' = sc\<lparr>nav_errors := nav_errors sc @ [nav],
               oracle_errors := oracle_errors sc @ [orc],
               trajectory_steps := trajectory_steps sc @ [int (length traj) - 1],
               trajectory_lengths := trajectory_lengths sc @ [L],
               success_path_length := success_path_length sc @ [v]\<rparr>"
    and v: "if splits self = [''test''] then v = 0
      else \<exists>d. dist_lookup self (scan g) start (last (path g)) = Inr d \<and> max d L \<noteq> 0 \<and>
             v = (if nav < error_margin self then 1 else 0) * d / max d L"
    by blast
  from L traj have L': "L = consecutive_sum self (scan g) (map fst traj)"
    by (simp add: length_loop_iff)
  have v': "v = (if splits self = [''test''] then 0
                else (if nav < error_margin self then 1 else 0)
                       * dist_of self (scan g) (hd (path g)) (last (path g))
                       / max (dist_of self (scan g) (hd (path g)) (last (path g))) L)"
    using v p by (auto simp: dist_of_def split: if_splits)
  show ?thesis
    using pid g sc' L' v' dist_of_eq[OF nav] by simp
qed

theorem spl_value_witness:
  "score_item ev7 empty_scores ''7_0'' traj_ABC =
     (Inr (2, 2), empty_scores\<lparr>nav_errors := [0], oracle_errors := [0], trajectory_steps := [2],
        trajectory_lengths := [7], success_path_length := [5 / 7]\<rparr>) \<and>
   (\<exists>pid g nav L v.
       py_int (split_head ''7_0'') = Inr pid \<and> gt ev7 pid = Some g \<and>
       [0] = [nav] \<and> [7] = [L] \<and> [5 / 7] = [v] \<and>
       nav = dist_of ev7 (scan g) (fst (last traj_ABC)) (last (path g)) \<and>
       L = consecutive_sum ev7 (scan g) (map fst traj_ABC) \<and>
       v = (if nav < error_margin ev7 then 1 else 0)
             * dist_of ev7 (scan g) (hd (path g)) (last (path g))
             / max (dist_of ev7 (scan g) (hd (path g)) (last (path g))) L) \<and>
   score_item ev_test empty_scores ''8_0'' traj_AB =
     (Inr (1, 1), empty_scores\<lparr>nav_errors := [0], oracle_errors := [0], trajectory_steps := [1],
        trajectory_lengths := [3], success_path_length := [0]\<rparr>) \<and>
   (\<exists>pid g nav L v.
       py_int (split_head ''8_0'') = Inr pid \<and> gt ev_test pid = Some g \<and>
       [0] = [nav] \<and> [3] = [L] \<and> [0] = [v] \<and> splits ev_test = [''test''] \<and> v = 0)"
proof -
  have run1: "score_item ev7 empty_scores ''7_0'' traj_ABC =
     (Inr (2, 2), empty_scores\<lparr>nav_errors := [0], oracle_errors := [0], trajectory_steps := [2],
        trajectory_lengths := [7], success_path_length := [5 / 7]\<rparr>)"
    by (simp add: score_item_ev7_ABC empty_scores_def)
  have run2: "score_item ev_test empty_scores ''8_0'' traj_AB =
     (Inr (1, 1), empty_scores\<lparr>nav_errors := [0], oracle_errors := [0], trajectory_steps := [1],
        trajectory_lengths := [3], success_path_length := [0]\<rparr>)"
    by (simp add: score_item_ev_test_AB empty_scores_def)
  have a: "\<exists>pid g nav L v.
       py_int (split_head ''7_0'') = Inr pid \<and> gt ev7 pid = Some g \<and>
       [0] = [nav] \<and> [7] = [L] \<and> [5 / 7] = [v] \<and>
       nav = dist_of ev7 (scan g) (fst (last traj_ABC)) (last (path g)) \<and>
       L = consecutive_sum ev7 (scan g) (map fst traj_ABC) \<and>
       v = (if nav < error_margin ev7 then 1 else 0)
             * dist_of ev7 (scan g) (hd (path g)) (last (path g))
             / max (dist_of ev7 (scan g) (hd (path g)) (last (path g))) L"
    using spl_value[OF run1] by (simp add: empty_scores_def ev7_simps)
  have b: "\<exists>pid g nav L v.
       py_int (split_head ''8_0'') = Inr pid \<and> gt ev_test pid = Some g \<and>
       [0] = [nav] \<and> [3] = [L] \<and> [0] = [v] \<and> splits ev_test = [''test''] \<and> v = 0"
    using spl_value[OF run2] by (auto simp add: empty_scores_def ev_test_simps)
  from run1 run2 a b show ?thesis by blast
qed



subsection \<open>A trajectory that follows the ground-truth path\<close>







subsection \<open>Step alignment\<close>

lemma fold_align_step:
  "fold (align_step gp traj idx) js (c, m) =
     (c + length (filter (\<lambda>j. gp ! j = fst (traj ! idx)) js),
      m + length (filter (\<lambda>j. gp ! j = fst (traj ! idx) \<and> gp ! (j + 1) = fst (traj ! (idx + 1))) js))"
  by (induction js arbitrary: c m) (auto simp: align_step_def)

lemma length_filter_upt: "length (filter P [0..<n]) = card {j. j < n \<and> P j}"
proof -
  have "{i. i < n \<and> P ([0..<n] ! i)} = {j. j < n \<and> P j}" by auto
  then show ?thesis by (simp add: length_filter_conv_card)
qed

lemma align_inner_card:
  "align_inner gp traj idx (c, m) =
     (c + card {j. j < length gp - 1 \<and> gp ! j = fst (traj ! idx)},
      m + card {j. j < length gp - 1 \<and> gp ! j = fst (traj ! idx) \<and> gp ! (j + 1) = fst (traj ! (idx + 1))})"
  by (simp add: align_inner_def fold_align_step length_filter_upt)

lemma fold_align_inner:
  "fold (align_inner gp traj) is (c, m) =
     (c + (\<Sum>i\<leftarrow>is. card {j. j < length gp - 1 \<and> gp ! j = fst (traj ! i)}),
      m + (\<Sum>i\<leftarrow>is. card {j. j < length gp - 1 \<and> gp ! j = fst (traj ! i) \<and> gp ! (j + 1) = fst (traj ! (i + 1))}))"
  by (induction "is" arbitrary: c m) (auto simp: align_inner_card)

lemma card_pairs:
  "card {(i, j). i < n \<and> j < (k::nat) \<and> P i j} = (\<Sum>i\<leftarrow>[0..<n]. card {j. j < k \<and> P i j})"
proof -
  have "{(i, j). i < n \<and> j < k \<and> P i j} = (SIGMA i:{..<n}. {j. j < k \<and> P i j})"
    by auto
  moreover have "card (SIGMA i:{..<n}. {j. j < k \<and> P i j}) = (\<Sum>i<n. card {j. j < k \<and> P i j})"
  proof (rule card_SigmaI)
    show "finite {..<n}" by simp
    show "\<forall>i\<in>{..<n}. finite {j. j < k \<and> P i j}"
    proof
      fix i
      have "{j. j < k \<and> P i j} \<subseteq> {..<k}" by auto
      then show "finite {j. j < k \<and> P i j}" by (rule finite_subset) simp
    qed
  qed
  ultimately have "card {(i, j). i < n \<and> j < k \<and> P i j} = (\<Sum>i<n. card {j. j < k \<and> P i j})"
    by (simp only:)
  also have "\<dots> = (\<Sum>i\<leftarrow>[0..<n]. card {j. j < k \<and> P i j})"
    by (simp add: interv_sum_list_conv_sum_set_nat lessThan_atLeast0)
  finally show ?thesis .
qed

lemma step_alignment_card:
  "step_alignment gp traj = (card (candidate_pairs gp traj), card (matched_pairs gp traj))"
  unfolding step_alignment_def candidate_pairs_def matched_pairs_def fold_align_inner
  by (simp add: card_pairs)


text \<open>
  Claim C6. The counters that \<open>_score_item\<close> returns are the number of candidate pairs
  and the number of matched pairs: the candidate counter counts every pair of a
  submission index and a ground-truth index, neither the last of its sequence, at which
  the two viewpoints are equal, each occurrence on its own; the matched counter counts
  those pairs at which the next submitted viewpoint also equals the next ground-truth
  viewpoint. For ground truth \<open>[A, B, C]\<close> and submission \<open>[A, B, D, C]\<close> (four
  different viewpoints) the first submitted viewpoint \<open>A\<close> contributes one candidate,
  which is matched; the whole trajectory gives two candidates and one match.
\<close>

theorem step_alignment_counts:
  "(score_item self sc iid traj = (Inr r, sc') \<longrightarrow>
      (\<exists>pid g. py_int (split_head iid) = Inr pid \<and> gt self pid = Some g \<and>
         r = (card (candidate_pairs (path g) traj), card (matched_pairs (path g) traj)))) \<and>
   (distinct [A, B, C, D] \<longrightarrow>
      align_inner [A, B, C] [(A, h0, e0), (B, h1, e1), (D, h2, e2), (C, h3, e3)] 0 (0, 0) = (1, 1) \<and>
      step_alignment [A, B, C] [(A, h0, e0), (B, h1, e1), (D, h2, e2), (C, h3, e3)] = (2, 1))"
proof (intro conjI impI)
  assume "score_item self sc iid traj = (Inr r, sc')"
  from score_item_Inr[OF this] obtain pid g where
    "py_int (split_head iid) = Inr pid" "gt self pid = Some g" "r = step_alignment (path g) traj"
    by blast
  then show "\<exists>pid g. py_int (split_head iid) = Inr pid \<and> gt self pid = Some g \<and>
         r = (card (candidate_pairs (path g) traj), card (matched_pairs (path g) traj))"
    by (auto simp: step_alignment_card)
next
  assume d: "distinct [A, B, C, D]"
  show "align_inner [A, B, C] [(A, h0, e0), (B, h1, e1), (D, h2, e2), (C, h3, e3)] 0 (0, 0) = (1, 1)"
    using d by (auto simp add: align_inner_def align_step_def upt_rec)
  show "step_alignment [A, B, C] [(A, h0, e0), (B, h1, e1), (D, h2, e2), (C, h3, e3)] = (2, 1)"
    using d by (auto simp add: step_alignment_def align_inner_def align_step_def upt_rec numeral_3_eq_3)
qed

theorem step_alignment_counts_witness:
  "score_item ev7 empty_scores ''7_0'' traj_ACB =
     (Inr (1, 0), empty_scores\<lparr>nav_errors := [4], oracle_errors := [0], trajectory_steps := [2],
        trajectory_lengths := [9], success_path_length := [0]\<rparr>) \<and>
   gt ev7 7 = Some gt7 \<and>
   (1, 0) = (card (candidate_pairs (path gt7) traj_ACB), card (matched_pairs (path gt7) traj_ACB)) \<and>
   distinct [''A'', ''B'', ''C'', ''D''] \<and>
   align_inner [''A'', ''B'', ''C''] [(''A'', 0, 0), (''B'', 0, 0), (''D'', 0, 0), (''C'', 0, 0)] 0 (0, 0) = (1, 1) \<and>
   step_alignment [''A'', ''B'', ''C''] [(''A'', 0, 0), (''B'', 0, 0), (''D'', 0, 0), (''C'', 0, 0)] = (2, 1)"
proof -
  have run: "score_item ev7 empty_scores ''7_0'' traj_ACB =
     (Inr (1, 0), empty_scores\<lparr>nav_errors := [4], oracle_errors := [0], trajectory_steps := [2],
        trajectory_lengths := [9], success_path_length := [0]\<rparr>)"
    by (simp add: score_item_ev7_ACB empty_scores_def)
  have dis: "distinct [''A'', ''B'', ''C'', ''D'']" by simp
  note inst = step_alignment_counts[of ev7 empty_scores "''7_0''" traj_ACB "(1, 0)" _
      "''A''" "''B''" "''C''" "''D''" 0 0 0 0 0 0 0 0]
  from inst run have "\<exists>pid g. py_int (split_head ''7_0'') = Inr pid \<and> gt ev7 pid = Some g \<and>
         (1, 0) = (card (candidate_pairs (path g) traj_ACB), card (matched_pairs (path g) traj_ACB))"
    by blast
  then have a: "(1, 0) = (card (candidate_pairs (path gt7) traj_ACB), card (matched_pairs (path gt7) traj_ACB))"
    by (auto simp: py_int_7 ev7_simps)
  from inst dis have b:
    "align_inner [''A'', ''B'', ''C''] [(''A'', 0, 0), (''B'', 0, 0), (''D'', 0, 0), (''C'', 0, 0)] 0 (0, 0) = (1, 1) \<and>
     step_alignment [''A'', ''B'', ''C''] [(''A'', 0, 0), (''B'', 0, 0), (''D'', 0, 0), (''C'', 0, 0)] = (2, 1)"
    by blast
  from run a b dis show ?thesis by (simp add: ev7_simps)
qed

subsection \<open>A ground-truth path of a single viewpoint\<close>

text \<open>
  Claim C10, as amended. For every submission entry whose ground-truth record has a
  single-viewpoint path, \<open>_score_item\<close> fails before any metric is appended: with an
  index error at the read of the path's second element when the submitted trajectory is
  non-empty and starts at the correct viewpoint, with the start assertion when it is
  non-empty and starts at another viewpoint, and with an index error at the read of the
  trajectory's first element when it is empty.
\<close>

theorem single_viewpoint_path:
  assumes "py_int (split_head iid) = Inr pid" "gt self pid = Some g" "path g = [v]"
  shows "score_item self sc iid traj =
     (case traj of
        [] \<Rightarrow> (Inl IndexError, sc)
      | p0 # traj_rest \<Rightarrow>
          if fst p0 = v then (Inl IndexError, sc) else (Inl (AssertionError start_msg), sc))"
  using assms by (simp add: score_item_def split: list.splits)

theorem single_viewpoint_path_witness:
  "gt ev9 9 = Some gt9 \<and> path gt9 = [''A''] \<and>
   score_item ev9 empty_scores ''9_0'' traj_A = (Inl IndexError, empty_scores) \<and>
   score_item ev9 empty_scores ''9_0'' [] = (Inl IndexError, empty_scores)"
proof -
  have p: "path gt9 = [''A'']" by (simp add: gt9_def)
  note inst = single_viewpoint_path[OF py_int_9 ev9_simps(1) p, of empty_scores]
  from inst[of traj_A] inst[of "[]"] p show ?thesis
    by (simp add: traj_A_def ev9_simps)
qed

text \<open>
  Claim C10 as stated, with an index error for every entry whose ground-truth path is a
  single viewpoint, fails: a trajectory that starts at another viewpoint is stopped by the
  start assertion, which comes before the read of the second element of the path.
\<close>

theorem single_viewpoint_path_counterexample:
  "gt ev9 9 = Some gt9 \<and> path gt9 = [''A''] \<and>
   score_item ev9 empty_scores ''9_0'' traj_B = (Inl (AssertionError start_msg), empty_scores) \<and>
   AssertionError start_msg \<noteq> IndexError"
  by (simp add: score_item_def py_int_9 ev9_simps gt9_def traj_B_def)

subsection \<open>The loop over the results file\<close>

lemma score_item_Inr_lengths:
  assumes "score_item self sc iid traj = (Inr r, sc')"
  shows "length (nav_errors sc') = Suc (length (nav_errors sc)) \<and>
         length (oracle_errors sc') = Suc (length (oracle_errors sc)) \<and>
         length (trajectory_steps sc') = Suc (length (trajectory_steps sc)) \<and>
         length (trajectory_lengths sc') = Suc (length (trajectory_lengths sc)) \<and>
         length (success_path_length sc') = Suc (length (success_path_length sc))"
  using score_item_Inr[OF assms] by auto

lemma score_loop_append:
  "score_loop self (xs @ ys) ids sc (pc, pm) =
     (case score_loop self xs ids sc (pc, pm) of
        (Inl e, sc') \<Rightarrow> (Inl e, sc')
      | (Inr (ids', pc', pm'), sc') \<Rightarrow> score_loop self ys ids' sc' (pc', pm'))"
  by (induction xs arbitrary: ids sc pc pm) (auto split: prod.splits sum.splits)

lemma score_loop_Inr:
  assumes "score_loop self xs ids sc (pc, pm) = (Inr (ids', pc', pm'), sc')"
  shows "ids' = ids |-| fset_of_list (map instr_id xs) \<and>
         length (nav_errors sc') + fcard ids' = length (nav_errors sc) + fcard ids \<and>
         length (oracle_errors sc') + fcard ids' = length (oracle_errors sc) + fcard ids \<and>
         length (trajectory_steps sc') + fcard ids' = length (trajectory_steps sc) + fcard ids \<and>
         length (trajectory_lengths sc') + fcard ids' = length (trajectory_lengths sc) + fcard ids \<and>
         length (success_path_length sc') + fcard ids' = length (success_path_length sc) + fcard ids"
  using assms
proof (induction xs arbitrary: ids sc pc pm)
  case Nil
  then show ?case by simp
next
  case (Cons item rest)
  show ?case
  proof (cases "instr_id item |\<in>| ids")
    case False
    with Cons.prems have "score_loop self rest ids sc (pc, pm) = (Inr (ids', pc', pm'), sc')"
      by simp
    from Cons.IH[OF this] False show ?thesis by auto
  next
    case True
    with Cons.prems obtain c1 c2 sc1 where
      it: "score_item self sc (instr_id item) (trajectory item) = (Inr (c1, c2), sc1)" and
      lp: "score_loop self rest (ids |-| {|instr_id item|}) sc1 (pc + c1, pm + c2) = (Inr (ids', pc', pm'), sc')"
      by (auto split: prod.splits sum.splits)
    have fc: "fcard ids = Suc (fcard (ids |-| {|instr_id item|}))"
      using True by (metis fcard_Suc_fminus1)
    from Cons.IH[OF lp] score_item_Inr_lengths[OF it] fc show ?thesis
      by auto
  qed
qed

lemma score_loop_filter:
  assumes "ids |\<subseteq>| S"
  shows "score_loop self (filter (\<lambda>item. instr_id item |\<in>| S) xs) ids sc (pc, pm) =
         score_loop self xs ids sc (pc, pm)"
  using assms
proof (induction xs arbitrary: ids sc pc pm)
  case Nil
  then show ?case by simp
next
  case (Cons item rest)
  have sub: "ids |-| {|instr_id item|} |\<subseteq>| S" using Cons.prems by auto
  show ?case
  proof (cases "instr_id item |\<in>| S")
    case True
    then show ?thesis using Cons.IH[OF sub] Cons.IH[OF Cons.prems]
      by (auto split: prod.splits sum.splits)
  next
    case False
    then have "instr_id item |\<notin>| ids" using Cons.prems by auto
    with False show ?thesis using Cons.IH[OF Cons.prems] by simp
  qed
qed

lemma score_loop_total:
  assumes "\<forall>item\<in>set xs. instr_id item |\<in>| S \<longrightarrow>
             (\<forall>sc. isl (fst (score_item self sc (instr_id item) (trajectory item))) = False)"
    and "ids |\<subseteq>| S"
  shows "\<exists>ids' pc' pm' sc'. score_loop self xs ids sc (pc, pm) = (Inr (ids', pc', pm'), sc')"
  using assms
proof (induction xs arbitrary: ids sc pc pm)
  case Nil
  then show ?case by simp
next
  case (Cons item rest)
  have rest: "\<forall>item\<in>set rest. instr_id item |\<in>| S \<longrightarrow>
             (\<forall>sc. isl (fst (score_item self sc (instr_id item) (trajectory item))) = False)"
    using Cons.prems(1) by simp
  show ?case
  proof (cases "instr_id item |\<in>| ids")
    case False
    then show ?thesis using Cons.IH[OF rest Cons.prems(2)] by simp
  next
    case True
    then have "instr_id item |\<in>| S" using Cons.prems(2) by auto
    with Cons.prems(1) have "\<not> isl (fst (score_item self sc (instr_id item) (trajectory item)))"
      by simp
    then obtain c1 c2 sc1 where
      it: "score_item self sc (instr_id item) (trajectory item) = (Inr (c1, c2), sc1)"
      by (cases "score_item self sc (instr_id item) (trajectory item)";
          cases "fst (score_item self sc (instr_id item) (trajectory item))") auto
    have sub: "ids |-| {|instr_id item|} |\<subseteq>| S" using Cons.prems(2) by auto
    from Cons.IH[OF rest sub, of sc1 "pc + c1" "pm + c2"] True it show ?thesis
      by simp
  qed
qed

subsection \<open>The example results files, evaluated\<close>

lemma instr_ids_ev8: "instr_ids ev8 = {|''8_0'', ''8_1'', ''8_2''|}"
  by (simp add: ev8_def Evaluation_init_def item_instr_ids_def gt8_def show_int_def show_nat.simps
        digit_char_def upt_rec numeral_3_eq_3)

lemma score_item_ev8_B:
  "iid \<in> {''8_0'', ''8_1'', ''8_2''} \<Longrightarrow>
     score_item ev8 sc iid traj_B = (Inl (AssertionError start_msg), sc)"
  by (auto simp add: score_item_def py_int_8 ev8_simps gt8_def traj_B_def)

lemma score_8_ok: "score ev8 ''results.json'' res8_ok = (Inr summary8, scores8)"
  by (simp add: score_def res8_ok_def entry_def instr_ids_ev8 score_item_ev8_AB empty_scores_def
        summary8_def scores8_def average_def ev8_simps fcard_finsert_if)

lemma score_8_dup: "score ev8 ''results.json'' res8_dup = (Inr summary8, scores8)"
  by (simp add: score_def res8_dup_def entry_def instr_ids_ev8 score_item_ev8_AB empty_scores_def
        summary8_def scores8_def average_def ev8_simps fcard_finsert_if)

lemma score_8_bad_dup: "score ev8 ''results.json'' res8_bad_dup = (Inr summary8, scores8)"
  by (simp add: score_def res8_bad_dup_def entry_def instr_ids_ev8 score_item_ev8_AB empty_scores_def
        summary8_def scores8_def average_def ev8_simps fcard_finsert_if)

lemma show_nat_small: "show_nat (Suc 0) = ''1''" "show_nat (Suc (Suc (Suc 0))) = ''3''"
  by (simp_all add: show_nat.simps digit_char_def)

lemma score_8_missing:
  "score ev8 ''results.json'' res8_missing =
     (Inl (AssertionError ''Missing 1 of 3 instruction ids from val_seen - not in results.json''),
      \<lparr>nav_errors = [0, 0], oracle_errors = [0, 0], trajectory_steps = [1, 1],
        trajectory_lengths = [3, 3], success_path_length = [1, 1]\<rparr>)"
  by (simp add: score_def res8_missing_def entry_def instr_ids_ev8 score_item_ev8_AB empty_scores_def
        ev8_simps fcard_finsert_if fcard_fempty missing_msg_def show_nat_small)

lemma score_8_bad:
  "score ev8 ''results.json'' res8_bad =
     (Inl (AssertionError start_msg),
      \<lparr>nav_errors = [0], oracle_errors = [0], trajectory_steps = [1],
        trajectory_lengths = [3], success_path_length = [1]\<rparr>)"
  by (simp add: score_def res8_bad_def entry_def instr_ids_ev8 score_item_ev8_AB score_item_ev8_B
        empty_scores_def)

subsection \<open>Scoring a results file\<close>

lemma score_cases:
  obtains (loop_error) e sc where
      "score_loop self rs (instr_ids self) empty_scores (0, 0) = (Inl e, sc)"
      "score self f rs = (Inl e, sc)"
  | (loop_done) ids' pc pm sc where
      "score_loop self rs (instr_ids self) empty_scores (0, 0) = (Inr (ids', pc, pm), sc)"
      "ids' = instr_ids self |-| fset_of_list (map instr_id rs)"
      "snd (score self f rs) = sc"
      "fcard ids' \<noteq> 0 \<Longrightarrow> score self f rs =
          (Inl (AssertionError (missing_msg (fcard ids') (fcard (instr_ids self)) (splits self) f)), sc)"
      "\<not> isl (fst (score self f rs)) \<Longrightarrow> fcard ids' = 0"
proof (cases "score_loop self rs (instr_ids self) empty_scores (0, 0)")
  case (Pair res sc)
  show ?thesis
  proof (cases res)
    case (Inl e)
    with Pair show ?thesis by (intro loop_error[of e sc]) (simp_all add: score_def)
  next
    case (Inr x)
    obtain ids' pc pm where x: "x = (ids', pc, pm)" by (cases x) auto
    have lp: "score_loop self rs (instr_ids self) empty_scores (0, 0) = (Inr (ids', pc, pm), sc)"
      using Pair Inr x by simp
    from score_loop_Inr[OF lp] have ids': "ids' = instr_ids self |-| fset_of_list (map instr_id rs)"
      by simp
    show ?thesis
      by (rule loop_done[OF lp ids']) (auto simp add: score_def lp split: if_splits)
  qed
qed

text \<open>
  Claim C9. When \<open>score\<close> returns a summary, each of the five metric lists
  (\<open>nav_errors\<close>, \<open>oracle_errors\<close>, \<open>trajectory_steps\<close>, \<open>trajectory_lengths\<close>,
  \<open>success_path_length\<close>) has as many elements as there are expected instruction ids;
  put the other way round, whenever one of the lists has another length the run ends in
  an error and no summary is returned.
\<close>

theorem score_lengths:
  assumes "score self f rs = (res, sc)"
  shows "(\<not> isl res \<longrightarrow>
            length (nav_errors sc) = fcard (instr_ids self) \<and>
            length (oracle_errors sc) = fcard (instr_ids self) \<and>
            length (trajectory_steps sc) = fcard (instr_ids self) \<and>
            length (trajectory_lengths sc) = fcard (instr_ids self) \<and>
            length (success_path_length sc) = fcard (instr_ids self)) \<and>
         (\<not> (length (nav_errors sc) = fcard (instr_ids self) \<and>
             length (oracle_errors sc) = fcard (instr_ids self) \<and>
             length (trajectory_steps sc) = fcard (instr_ids self) \<and>
             length (trajectory_lengths sc) = fcard (instr_ids self) \<and>
             length (success_path_length sc) = fcard (instr_ids self)) \<longrightarrow> isl res)"
proof -
  have main: "length (nav_errors sc) = fcard (instr_ids self) \<and>
            length (oracle_errors sc) = fcard (instr_ids self) \<and>
            length (trajectory_steps sc) = fcard (instr_ids self) \<and>
            length (trajectory_lengths sc) = fcard (instr_ids self) \<and>
            length (success_path_length sc) = fcard (instr_ids self)" if ok: "\<not> isl res"
  proof (cases rule: score_cases[of self rs f])
    case (loop_error e sc0)
    with assms ok show ?thesis by auto
  next
    case (loop_done ids' pc pm sc0)
    from loop_done(3) assms have sc: "sc0 = sc" by simp
    from loop_done(5) assms ok have z: "fcard ids' = 0" by simp
    from score_loop_Inr[OF loop_done(1)] z sc show ?thesis
      by (simp add: empty_scores_def)
  qed
  then show ?thesis by blast
qed

theorem score_lengths_witness:
  "score ev8 ''results.json'' res8_ok = (Inr summary8, scores8) \<and>
   fcard (instr_ids ev8) = 3 \<and>
   length (nav_errors scores8) = fcard (instr_ids ev8) \<and>
   length (oracle_errors scores8) = fcard (instr_ids ev8) \<and>
   length (trajectory_steps scores8) = fcard (instr_ids ev8) \<and>
   length (trajectory_lengths scores8) = fcard (instr_ids ev8) \<and>
   length (success_path_length scores8) = fcard (instr_ids ev8)"
proof -
  have n: "fcard (instr_ids ev8) = 3"
    by (simp add: instr_ids_ev8 fcard_finsert_if fcard_fempty)
  from score_lengths[OF score_8_ok] have
    "length (nav_errors scores8) = fcard (instr_ids ev8) \<and>
     length (oracle_errors scores8) = fcard (instr_ids ev8) \<and>
     length (trajectory_steps scores8) = fcard (instr_ids ev8) \<and>
     length (trajectory_lengths scores8) = fcard (instr_ids ev8) \<and>
     length (success_path_length scores8) = fcard (instr_ids ev8)"
    by simp
  with score_8_ok n show ?thesis by simp
qed

lemma score_loop_error:
  assumes "score_loop self rs (instr_ids self) empty_scores (0, 0) = (Inl e, sc)"
  shows "score self f rs = (Inl e, sc)"
  using assms by (simp add: score_def)

subsection \<open>A trajectory that does not start at the start viewpoint\<close>

text \<open>
  Claim C3, as amended. For every submitted trajectory whose first visited viewpoint
  differs from the first viewpoint of its ground-truth path, \<open>_score_item\<close> raises the
  start assertion and leaves the score lists as they were; and a run of \<open>score\<close> in
  which such an entry is the first entry of the results file for an expected instruction
  id ends in an error and returns no summary.
\<close>

theorem start_mismatch:
  assumes pid: "py_int (split_head (instr_id item)) = Inr pid" and g: "gt self pid = Some g"
    and p: "path g = start # gt_rest" and t: "trajectory item = p0 # traj_rest"
    and ne: "fst p0 \<noteq> start"
  shows "score_item self sc (instr_id item) (trajectory item) = (Inl (AssertionError start_msg), sc) \<and>
         (instr_id item |\<in>| instr_ids self \<and> instr_id item \<notin> instr_id ` set pre \<longrightarrow>
            isl (fst (score self f (pre @ item # post))))"
proof (intro conjI impI)
  have fail: "score_item self sc0 (instr_id item) (trajectory item) = (Inl (AssertionError start_msg), sc0)"
    for sc0
    using pid g p t ne by (simp add: score_item_def)
  then show "score_item self sc (instr_id item) (trajectory item) = (Inl (AssertionError start_msg), sc)" .
  assume a: "instr_id item |\<in>| instr_ids self \<and> instr_id item \<notin> instr_id ` set pre"
  obtain res sc1 where pre: "score_loop self pre (instr_ids self) empty_scores (0, 0) = (res, sc1)"
    by (cases "score_loop self pre (instr_ids self) empty_scores (0, 0)") auto
  show "isl (fst (score self f (pre @ item # post)))"
  proof (cases res)
    case (Inl e)
    with pre have "score_loop self (pre @ item # post) (instr_ids self) empty_scores (0, 0) = (Inl e, sc1)"
      by (simp add: score_loop_append)
    from score_loop_error[OF this] show ?thesis by simp
  next
    case (Inr x)
    obtain ids' pc pm where x: "x = (ids', pc, pm)" by (cases x) auto
    with pre Inr have lp: "score_loop self pre (instr_ids self) empty_scores (0, 0) = (Inr (ids', pc, pm), sc1)"
      by simp
    from score_loop_Inr[OF lp] have "ids' = instr_ids self |-| fset_of_list (map instr_id pre)"
      by simp
    with a have mem: "instr_id item |\<in>| ids'"
      by (simp add: fset_of_list.rep_eq)
    have "score_loop self (pre @ item # post) (instr_ids self) empty_scores (0, 0) =
            (Inl (AssertionError start_msg), sc1)"
      using lp mem fail[of sc1] by (simp add: score_loop_append)
    from score_loop_error[OF this] show ?thesis by simp
  qed
qed

theorem start_mismatch_witness:
  "gt ev8 8 = Some gt8 \<and> path gt8 = [''A'', ''B''] \<and> traj_B = [(''B'', 0, 0)] \<and>
   res8_bad = [entry ''8_0'' traj_AB] @ entry ''8_1'' traj_B # [entry ''8_2'' traj_AB] \<and>
   score_item ev8 empty_scores ''8_1'' traj_B = (Inl (AssertionError start_msg), empty_scores) \<and>
   isl (fst (score ev8 ''results.json'' res8_bad))"
proof -
  have h1: "py_int (split_head (instr_id (entry ''8_1'' traj_B))) = Inr 8"
    by (simp add: entry_def py_int_8)
  have h3: "path gt8 = ''A'' # [''B'']" by (simp add: gt8_def)
  have h4: "trajectory (entry ''8_1'' traj_B) = (''B'', 0, 0) # []" by (simp add: entry_def traj_B_def)
  have h5: "fst (''B'', 0::real, 0::real) \<noteq> ''A''" by simp
  have h6: "instr_id (entry ''8_1'' traj_B) |\<in>| instr_ids ev8 \<and>
            instr_id (entry ''8_1'' traj_B) \<notin> instr_id ` set [entry ''8_0'' traj_AB]"
    by (simp add: entry_def instr_ids_ev8)
  have r: "res8_bad = [entry ''8_0'' traj_AB] @ entry ''8_1'' traj_B # [entry ''8_2'' traj_AB]"
    by (simp add: res8_bad_def)
  from start_mismatch[OF h1 ev8_simps(1) h3 h4 h5, of empty_scores "[entry ''8_0'' traj_AB]"
      "''results.json''" "[entry ''8_2'' traj_AB]"] h6
  have "score_item ev8 empty_scores ''8_1'' traj_B = (Inl (AssertionError start_msg), empty_scores) \<and>
        isl (fst (score ev8 ''results.json'' res8_bad))"
    unfolding r by (simp add: entry_def)
  with r show ?thesis by (simp add: ev8_simps gt8_def traj_B_def)
qed

text \<open>
  Claim C3 as stated, for every run that contains such a trajectory, fails: an entry whose
  instruction id was already scored (or is not expected) is skipped without being looked
  at. The fourth entry below repeats the id \<open>8_0\<close> with a trajectory that starts at
  \<open>B\<close> while the ground-truth path starts at \<open>A\<close>, and the run returns its summary.
\<close>

theorem start_mismatch_counterexample:
  "gt ev8 8 = Some gt8 \<and> hd (path gt8) = ''A'' \<and> fst (hd traj_B) = ''B'' \<and>
   res8_bad_dup ! 3 = entry ''8_0'' traj_B \<and>
   score ev8 ''results.json'' res8_bad_dup = (Inr summary8, scores8)"
proof -
  have "res8_bad_dup ! 3 = entry ''8_0'' traj_B" by (simp add: res8_bad_dup_def)
  moreover have "fst (hd traj_B) = ''B''" by (simp add: traj_B_def)
  moreover have "hd (path gt8) = ''A''" by (simp add: gt8_def)
  ultimately show ?thesis using score_8_bad_dup ev8_simps(1) by simp
qed

lemma score_cong:
  assumes "score_loop self rs (instr_ids self) empty_scores (0, 0) =
           score_loop self rs' (instr_ids self) empty_scores (0, 0)"
  shows "score self f rs = score self f rs'"
  using assms by (simp add: score_def)

lemma score_loop_skip_repeated:
  assumes "instr_id item \<in> instr_id ` set pre"
  shows "score_loop self (pre @ item # post) ids sc (pc, pm) =
         score_loop self (pre @ post) ids sc (pc, pm)"
proof (cases "score_loop self pre ids sc (pc, pm)")
  case (Pair res sc1)
  show ?thesis
  proof (cases res)
    case (Inl e)
    with Pair show ?thesis by (simp add: score_loop_append)
  next
    case (Inr x)
    obtain ids' pc' pm' where x: "x = (ids', pc', pm')" by (cases x) auto
    with Pair Inr have lp: "score_loop self pre ids sc (pc, pm) = (Inr (ids', pc', pm'), sc1)"
      by simp
    from score_loop_Inr[OF lp] have "ids' = ids |-| fset_of_list (map instr_id pre)" by simp
    with assms have "instr_id item |\<notin>| ids'"
      by (simp add: fset_of_list.rep_eq)
    with lp show ?thesis by (simp add: score_loop_append)
  qed
qed

subsection \<open>Coverage of the expected instruction ids\<close>

text \<open>
  Claim C2, as amended. When \<open>score\<close> processes a results file, every expected
  instruction id must appear at least once: a summary is returned only if each expected
  id occurs in the file. Entries whose instruction id is outside the expected set are
  ignored without being flagged (dropping them from the file changes nothing), and so is
  every further entry for an id that occurred before. If \<open>k > 0\<close> of the \<open>N\<close>
  expected ids are absent from the file, no summary is produced; and when every entry that
  is scored is scored without error, the error raised is the assertion with the message
  \<open>Missing k of N instruction ids from S - not in F\<close>, where \<open>S\<close> is the
  comma-separated list of the active splits and \<open>F\<close> the name of the results file;
  for one missing id the message starts with \<open>Missing 1 of N\<close>.
\<close>

theorem score_coverage:
  "(\<not> isl (fst (score self f rs)) \<longrightarrow> instr_ids self |\<subseteq>| fset_of_list (map instr_id rs)) \<and>
   score self f (filter (\<lambda>item. instr_id item |\<in>| instr_ids self) rs) = score self f rs \<and>
   (instr_id item \<in> instr_id ` set pre \<longrightarrow>
      score self f (pre @ item # post) = score self f (pre @ post)) \<and>
   (0 < fcard (instr_ids self |-| fset_of_list (map instr_id rs)) \<longrightarrow>
      isl (fst (score self f rs)) \<and>
      ((\<forall>item\<in>set rs. instr_id item |\<in>| instr_ids self \<longrightarrow>
          (\<forall>sc. isl (fst (score_item self sc (instr_id item) (trajectory item))) = False)) \<longrightarrow>
       fst (score self f rs) =
         Inl (AssertionError (missing_msg (fcard (instr_ids self |-| fset_of_list (map instr_id rs)))
                                (fcard (instr_ids self)) (splits self) f)))) \<and>
   missing_msg 1 n splts f =
     ''Missing 1 of '' @ show_nat n @ '' instruction ids from '' @ join '','' splts @ '' - not in '' @ f"
proof (intro conjI impI)
  assume ok: "\<not> isl (fst (score self f rs))"
  show "instr_ids self |\<subseteq>| fset_of_list (map instr_id rs)"
  proof (cases rule: score_cases[of self rs f])
    case (loop_error e sc)
    with ok show ?thesis by simp
  next
    case (loop_done ids' pc pm sc)
    from loop_done(5)[OF ok] have "ids' = {||}" by simp
    with loop_done(2) show ?thesis by auto
  qed
next
  show "score self f (filter (\<lambda>item. instr_id item |\<in>| instr_ids self) rs) = score self f rs"
    by (rule score_cong) (simp add: score_loop_filter)
next
  assume "instr_id item \<in> instr_id ` set pre"
  then show "score self f (pre @ item # post) = score self f (pre @ post)"
    by (intro score_cong score_loop_skip_repeated)
next
  assume k: "0 < fcard (instr_ids self |-| fset_of_list (map instr_id rs))"
  show "isl (fst (score self f rs))"
  proof (cases rule: score_cases[of self rs f])
    case (loop_error e sc)
    then show ?thesis by simp
  next
    case (loop_done ids' pc pm sc)
    from k loop_done(2) have "fcard ids' \<noteq> 0" by (metis neq0_conv)
    from loop_done(4)[OF this] loop_done(2) show ?thesis by (simp del: fset_of_list_map)
  qed
next
  assume k: "0 < fcard (instr_ids self |-| fset_of_list (map instr_id rs))"
    and all: "\<forall>item\<in>set rs. instr_id item |\<in>| instr_ids self \<longrightarrow>
          (\<forall>sc. isl (fst (score_item self sc (instr_id item) (trajectory item))) = False)"
  from score_loop_total[OF all, of "instr_ids self" empty_scores 0 0]
  obtain ids0 pc0 pm0 sc0 where
    tot: "score_loop self rs (instr_ids self) empty_scores (0, 0) = (Inr (ids0, pc0, pm0), sc0)"
    by auto
  show "fst (score self f rs) =
         Inl (AssertionError (missing_msg (fcard (instr_ids self |-| fset_of_list (map instr_id rs)))
                                (fcard (instr_ids self)) (splits self) f))"
  proof (cases rule: score_cases[of self rs f])
    case (loop_error e sc)
    with tot show ?thesis by simp
  next
    case (loop_done ids' pc pm sc)
    from k loop_done(2) have "fcard ids' \<noteq> 0" by (metis neq0_conv)
    from loop_done(4)[OF this] loop_done(2) show ?thesis by (simp del: fset_of_list_map)
  qed
next
  show "missing_msg 1 n splts f =
     ''Missing 1 of '' @ show_nat n @ '' instruction ids from '' @ join '','' splts @ '' - not in '' @ f"
    by (simp add: missing_msg_def show_nat_small)
qed


theorem score_coverage_witness:
  "fcard (instr_ids ev8 |-| fset_of_list (map instr_id res8_missing)) = 1 \<and>
   fcard (instr_ids ev8) = 3 \<and> splits ev8 = [''val_seen''] \<and>
   fst (score ev8 ''results.json'' res8_missing) =
     Inl (AssertionError ''Missing 1 of 3 instruction ids from val_seen - not in results.json'') \<and>
   score ev8 ''results.json'' (filter (\<lambda>item. instr_id item |\<in>| instr_ids ev8) res8_missing) =
     score ev8 ''results.json'' res8_missing \<and>
   score ev8 ''results.json'' ([entry ''8_0'' traj_AB] @ entry ''8_0'' traj_AB # [entry ''8_1'' traj_AB, entry ''8_2'' traj_AB]) =
     score ev8 ''results.json'' ([entry ''8_0'' traj_AB] @ [entry ''8_1'' traj_AB, entry ''8_2'' traj_AB]) \<and>
   instr_ids ev8 |\<subseteq>| fset_of_list (map instr_id res8_ok)"
proof -
  have k: "fcard (instr_ids ev8 |-| fset_of_list (map instr_id res8_missing)) = 1"
    by (simp add: instr_ids_ev8 res8_missing_def entry_def fcard_finsert_if fcard_fempty
          del: fset_of_list_map)
  have n: "fcard (instr_ids ev8) = 3"
    by (simp add: instr_ids_ev8 fcard_finsert_if fcard_fempty)
  have all: "\<forall>item\<in>set res8_missing. instr_id item |\<in>| instr_ids ev8 \<longrightarrow>
          (\<forall>sc. isl (fst (score_item ev8 sc (instr_id item) (trajectory item))) = False)"
    by (simp add: res8_missing_def entry_def instr_ids_ev8 score_item_ev8_AB)
  have dup: "instr_id (entry ''8_0'' traj_AB) \<in> instr_id ` set [entry ''8_0'' traj_AB]"
    by simp
  have ok: "\<not> isl (fst (score ev8 ''results.json'' res8_ok))"
    by (simp add: score_8_ok)
  note a = score_coverage[of ev8 "''results.json''" res8_missing "entry ''8_0'' traj_AB"
      "[entry ''8_0'' traj_AB]" "[entry ''8_1'' traj_AB, entry ''8_2'' traj_AB]" 3 "[''val_seen'']"]
  note b = score_coverage[of ev8 "''results.json''" res8_ok "entry ''8_0'' traj_AB"
      "[entry ''8_0'' traj_AB]" "[entry ''8_1'' traj_AB, entry ''8_2'' traj_AB]" 3 "[''val_seen'']"]
  from a k all have msg: "fst (score ev8 ''results.json'' res8_missing) =
     Inl (AssertionError (missing_msg 1 (fcard (instr_ids ev8)) (splits ev8) ''results.json''))"
    by simp
  have m: "missing_msg 1 3 [''val_seen''] ''results.json'' =
      ''Missing 1 of 3 instruction ids from val_seen - not in results.json''"
    using a by (simp add: show_nat_small numeral_3_eq_3)
  from a have f: "score ev8 ''results.json'' (filter (\<lambda>item. instr_id item |\<in>| instr_ids ev8) res8_missing) =
     score ev8 ''results.json'' res8_missing" by blast
  from a dup have d: "score ev8 ''results.json'' ([entry ''8_0'' traj_AB] @ entry ''8_0'' traj_AB # [entry ''8_1'' traj_AB, entry ''8_2'' traj_AB]) =
     score ev8 ''results.json'' ([entry ''8_0'' traj_AB] @ [entry ''8_1'' traj_AB, entry ''8_2'' traj_AB])"
    by blast
  from b ok have c: "instr_ids ev8 |\<subseteq>| fset_of_list (map instr_id res8_ok)" by blast
  from k n msg m f d c show ?thesis by (simp add: ev8_simps del: fset_of_list_map)
qed

text \<open>
  Claim C2 as stated, with every expected instruction id exactly once, fails: a repeated
  entry is skipped like an unexpected one. The results file below holds the id \<open>8_0\<close>
  twice and the run returns its summary.
\<close>

theorem score_coverage_counterexample:
  "''8_0'' |\<in>| instr_ids ev8 \<and> count_list (map instr_id res8_dup) ''8_0'' = 2 \<and>
   score ev8 ''results.json'' res8_dup = (Inr summary8, scores8)"
proof -
  have "count_list (map instr_id res8_dup) ''8_0'' = 2" by (simp add: res8_dup_def entry_def)
  then show ?thesis using score_8_dup by (simp add: instr_ids_ev8)
qed

subsection \<open>Loading a connectivity graph\<close>

lemma foldM_invariant:
  assumes "foldM f xs s = Inr s'" and "P s"
    and "\<And>x s s'. x \<in> set xs \<Longrightarrow> P s \<Longrightarrow> f x s = Inr s' \<Longrightarrow> P s'"
  shows "P s'"
  using assms
proof (induction xs arbitrary: s)
  case Nil
  then show ?case by simp
next
  case (Cons x xs)
  from Cons.prems(1) obtain s1 where s1: "f x s = Inr s1" and rest: "foldM f xs s1 = Inr s'"
    by (auto split: sum.splits)
  have "P s1" using Cons.prems(3)[of x s s1] Cons.prems(2) s1 by simp
  moreover have "\<And>x' t t'. x' \<in> set xs \<Longrightarrow> P t \<Longrightarrow> f x' t = Inr t' \<Longrightarrow> P t'"
    using Cons.prems(3) by (meson list.set_intros(2))
  ultimately show ?case by (rule Cons.IH[OF rest])
qed

lemma foldM_fails:
  assumes "x \<in> set xs" and "\<And>s. isl (f x s)"
  shows "isl (foldM f xs s)"
  using assms(1)
proof (induction xs arbitrary: s)
  case Nil
  then show ?case by simp
next
  case (Cons y ys)
  show ?case
  proof (cases "f y s")
    case (Inl e)
    then show ?thesis by simp
  next
    case (Inr s1)
    show ?thesis
    proof (cases "x = y")
      case True
      with assms(2)[of s] Inr show ?thesis by simp
    next
      case False
      with Cons.prems have "x \<in> set ys" by simp
      from Cons.IH[OF this] Inr show ?thesis by simp
    qed
  qed
qed

lemma foldM_error:
  assumes "foldM f xs s = Inl e"
  shows "\<exists>x\<in>set xs. \<exists>s0. f x s0 = Inl e"
  using assms
proof (induction xs arbitrary: s)
  case Nil
  then show ?case by simp
next
  case (Cons y ys)
  show ?case
  proof (cases "f y s")
    case (Inl e')
    with Cons.prems show ?thesis by auto
  next
    case (Inr s1)
    with Cons.prems have "foldM f ys s1 = Inl e" by simp
    from Cons.IH[OF this] show ?thesis by auto
  qed
qed

lemma distance_Inr_iff:
  "distance a b = Inr w \<longleftrightarrow>
     11 < length (pose a) \<and> 11 < length (pose b) \<and> w = euclidean (position_of a) (position_of b)"
  by (auto simp: distance_def euclidean_def position_of_def)

lemma euclidean_sym: "euclidean p q = euclidean q p"
  by (cases p; cases q) (simp add: euclidean_def power2_commute)

lemma edge_between_sym: "edge_between data u v w \<Longrightarrow> edge_between data v u w"
  unfolding edge_between_def using euclidean_sym by metis

lemma adj_add_edge:
  "adj (add_edge G u v w) x y =
     (if (x = u \<and> y = v) \<or> (x = v \<and> y = u) then Some w else adj G x y)"
  by (auto simp: add_edge_def Let_def)


lemma edge_step_ok:
  assumes inv: "edges_ok data G" and step: "edge_step data i item (j, conn) G = Inr G'"
    and i: "i < length data" "data ! i = item" "included item"
    and j: "j < length (unobstructed item)" "unobstructed item ! j = conn"
  shows "edges_ok data G'"
proof (cases "conn \<and> included (data ! j)")
  case False
  with step have "G' = G" by (auto simp: edge_step_def split: if_splits)
  with inv show ?thesis by simp
next
  case True
  from step True obtain w where
    jd: "j < length data" and pi: "11 < length (pose item)"
    and iu: "i < length (unobstructed (data ! j))" "unobstructed (data ! j) ! i"
    and w: "distance item (data ! j) = Inr w"
    and G': "G' = add_edge (G\<lparr>position := (position G)(image_id item \<mapsto>
                    [pose item ! 3, pose item ! 7, pose item ! 11])\<rparr>) (image_id item) (image_id (data ! j)) w"
    by (auto simp: edge_step_def Let_def split: if_splits sum.splits)
  have e1: "edge_between data (image_id item) (image_id (data ! j)) w"
    unfolding edge_between_def
    using i j jd iu w True by (intro exI[of _ i] exI[of _ j]) (auto simp: distance_Inr_iff)
  have e2: "edge_between data (image_id (data ! j)) (image_id item) w"
    using e1 by (rule edge_between_sym)
  show ?thesis
    unfolding edges_ok_def
  proof (intro allI impI)
    fix u v w' assume a: "adj G' u v = Some w'"
    show "edge_between data u v w'"
    proof (cases "(u = image_id item \<and> v = image_id (data ! j)) \<or> (u = image_id (data ! j) \<and> v = image_id item)")
      case True
      with a G' have "w' = w" by (simp add: adj_add_edge)
      with True e1 e2 show ?thesis by auto
    next
      case False
      with a G' have "adj G u v = Some w'" by (simp add: adj_add_edge)
      with inv show ?thesis by (simp add: edges_ok_def)
    qed
  qed
qed

lemma item_step_ok:
  assumes inv: "edges_ok data G" and step: "item_step data (i, item) G = Inr G'"
    and i: "i < length data" "data ! i = item"
  shows "edges_ok data G'"
proof (cases "included item")
  case False
  with step have "G' = G" by (simp add: item_step_def)
  with inv show ?thesis by simp
next
  case True
  with step have f: "foldM (edge_step data i item) (enumerate 0 (unobstructed item)) G = Inr G'"
    by (simp add: item_step_def)
  show ?thesis
  proof (rule foldM_invariant[where P = "edges_ok data", OF f inv])
    fix x s s'
    assume x: "x \<in> set (enumerate 0 (unobstructed item))" and s: "edges_ok data s"
      and st: "edge_step data i item x s = Inr s'"
    obtain j conn where xj: "x = (j, conn)" by (cases x) auto
    with x have "j < length (unobstructed item)" "unobstructed item ! j = conn"
      by (auto simp: in_set_enumerate_eq)
    with s st xj i True show "edges_ok data s'"
      by (intro edge_step_ok[of data s i item j conn s']) auto
  qed
qed

lemma load_nav_graph_ok:
  assumes "load_nav_graph data = Inr G"
  shows "edges_ok data G"
proof (rule foldM_invariant[where P = "edges_ok data", OF assms[unfolded load_nav_graph_def]])
  show "edges_ok data empty_graph" by (simp add: edges_ok_def empty_graph_def)
next
  fix x s s'
  assume x: "x \<in> set (enumerate 0 data)" and s: "edges_ok data s" and st: "item_step data x s = Inr s'"
  obtain i item where xi: "x = (i, item)" by (cases x) auto
  with x have "i < length data" "data ! i = item" by (auto simp: in_set_enumerate_eq)
  with s st xi show "edges_ok data s'" by (intro item_step_ok[of data s i item s']) auto
qed

lemma edge_step_one_way:
  assumes "one_way data i j"
  shows "isl (edge_step data i (data ! i) (j, True) G)"
  using assms by (auto simp: one_way_def edge_step_def Let_def)

lemma item_step_one_way:
  assumes "one_way data i j"
  shows "isl (item_step data (i, data ! i) G)"
proof -
  from assms have inc: "included (data ! i)" and j: "j < length (unobstructed (data ! i))"
    and c: "unobstructed (data ! i) ! j" by (auto simp: one_way_def)
  from j c have mem: "(j, True) \<in> set (enumerate 0 (unobstructed (data ! i)))"
    by (simp add: in_set_enumerate_eq)
  have "isl (foldM (edge_step data i (data ! i)) (enumerate 0 (unobstructed (data ! i))) G)"
    by (rule foldM_fails[OF mem]) (rule edge_step_one_way[OF assms])
  with inc show ?thesis by (simp add: item_step_def)
qed

lemma load_nav_graph_one_way:
  assumes "one_way data i j"
  shows "isl (load_nav_graph data)"
proof -
  from assms have "i < length data" by (simp add: one_way_def)
  then have mem: "(i, data ! i) \<in> set (enumerate 0 data)" by (simp add: in_set_enumerate_eq)
  show ?thesis unfolding load_nav_graph_def
    by (rule foldM_fails[OF mem]) (rule item_step_one_way[OF assms])
qed

lemma edge_step_error_wf:
  assumes wf: "well_formed data" and i: "i < length data" "data ! i = item"
    and j: "j < length (unobstructed item)"
    and e: "edge_step data i item (j, conn) G = Inl e"
  shows "e = AssertionError undirected_msg"
proof -
  have all: "\<And>k. k < length data \<Longrightarrow> length (pose (data ! k)) = 16 \<and> length (unobstructed (data ! k)) = length data"
    using wf by (simp add: well_formed_def list_all_length)
  from all[OF i(1)] i(2) have li: "length (pose item) = 16" "length (unobstructed item) = length data"
    by auto
  with j have jd: "j < length data" by simp
  from all[OF jd] have lj: "length (pose (data ! j)) = 16" "length (unobstructed (data ! j)) = length data"
    by auto
  from e li lj jd i(1) show ?thesis
    by (auto simp: edge_step_def Let_def distance_def split: if_splits sum.splits)
qed

lemma load_nav_graph_error_wf:
  assumes wf: "well_formed data" and e: "load_nav_graph data = Inl e"
  shows "e = AssertionError undirected_msg"
proof -
  from foldM_error[OF e[unfolded load_nav_graph_def]] obtain x G where
    x: "x \<in> set (enumerate 0 data)" and xe: "item_step data x G = Inl e" by blast
  obtain i item where xi: "x = (i, item)" by (cases x) auto
  with x have i: "i < length data" "data ! i = item" by (auto simp: in_set_enumerate_eq)
  from xe xi have f: "foldM (edge_step data i item) (enumerate 0 (unobstructed item)) G = Inl e"
    by (auto simp: item_step_def split: if_splits)
  from foldM_error[OF f] obtain y G1 where
    y: "y \<in> set (enumerate 0 (unobstructed item))" and ye: "edge_step data i item y G1 = Inl e"
    by blast
  obtain j conn where yj: "y = (j, conn)" by (cases y) auto
  with y have j: "j < length (unobstructed item)" by (auto simp: in_set_enumerate_eq)
  from edge_step_error_wf[OF wf i j] ye yj show ?thesis by simp
qed

lemma load_nav_graphs_fails:
  assumes "(scn, data) \<in> set files" and "isl (load_nav_graph data)"
  shows "isl (load_nav_graphs files)"
  unfolding load_nav_graphs_def
  by (rule foldM_fails[OF assms(1)]) (use assms(2) in \<open>auto split: sum.splits\<close>)

text \<open>
  Claim C8. Every edge of a graph that the loader returns joins the ids of two records
  that are both marked included and each marked unobstructed from the other, and its
  weight is the Euclidean distance between the positions of the two records (elements 3,
  7 and 11 of their poses). If some included record is connected to an included record
  that is not marked unobstructed in the reverse direction, loading fails and no graph is
  built, for the scan and for the whole set of scans; on a file of the specified shape
  (16-element poses, one \<open>unobstructed\<close> flag per record) the error is the assertion
  \<open>Graph should be undirected\<close>.
\<close>

theorem edges_of_loaded_graph:
  "(load_nav_graph data = Inr G \<and> adj G u v = Some w \<longrightarrow>
      (\<exists>i j. i < length data \<and> j < length data \<and>
         u = image_id (data ! i) \<and> v = image_id (data ! j) \<and>
         included (data ! i) \<and> included (data ! j) \<and>
         j < length (unobstructed (data ! i)) \<and> unobstructed (data ! i) ! j \<and>
         i < length (unobstructed (data ! j)) \<and> unobstructed (data ! j) ! i \<and>
         11 < length (pose (data ! i)) \<and> 11 < length (pose (data ! j)) \<and>
         w = euclidean (position_of (data ! i)) (position_of (data ! j)))) \<and>
   (one_way data i j \<longrightarrow>
      isl (load_nav_graph data) \<and>
      (well_formed data \<longrightarrow> load_nav_graph data = Inl (AssertionError undirected_msg)) \<and>
      ((scn, data) \<in> set files \<longrightarrow> isl (load_nav_graphs files)))"
proof (intro conjI impI)
  assume "load_nav_graph data = Inr G \<and> adj G u v = Some w"
  then have "edge_between data u v w"
    using load_nav_graph_ok[of data G] by (simp add: edges_ok_def)
  then show "\<exists>i j. i < length data \<and> j < length data \<and>
         u = image_id (data ! i) \<and> v = image_id (data ! j) \<and>
         included (data ! i) \<and> included (data ! j) \<and>
         j < length (unobstructed (data ! i)) \<and> unobstructed (data ! i) ! j \<and>
         i < length (unobstructed (data ! j)) \<and> unobstructed (data ! j) ! i \<and>
         11 < length (pose (data ! i)) \<and> 11 < length (pose (data ! j)) \<and>
         w = euclidean (position_of (data ! i)) (position_of (data ! j))"
    by (simp add: edge_between_def)
next
  assume ow: "one_way data i j"
  then show f: "isl (load_nav_graph data)" by (rule load_nav_graph_one_way)
  {
    assume wf: "well_formed data"
    from f obtain e where e: "load_nav_graph data = Inl e" by (cases "load_nav_graph data") auto
    from load_nav_graph_error_wf[OF wf e] e
    show "load_nav_graph data = Inl (AssertionError undirected_msg)" by simp
  }
  {
    assume "(scn, data) \<in> set files"
    then show "isl (load_nav_graphs files)" using f by (rule load_nav_graphs_fails)
  }
qed


lemma sqrt_examples: "sqrt 9 = 3" "sqrt 16 = 4" "sqrt 25 = 5"
  by (rule real_sqrt_unique; simp)+

lemma enumerate3: "enumerate 0 [a, b, c] = [(0, a), (1, b), (2, c)]"
  by (simp add: enumerate_simps)

lemma enumerate2: "enumerate 0 [a, b] = [(0, a), (1, b)]"
  by (simp add: enumerate_simps)

lemma load_data345:
  "\<exists>G. load_nav_graph data345 = Inr G \<and> adj G ''A'' ''B'' = Some 3 \<and> adj G ''B'' ''C'' = Some 4 \<and>
        adj G ''A'' ''C'' = Some 5 \<and> adj G ''C'' ''A'' = Some 5 \<and> adj G ''A'' ''A'' = None"
  by (simp add: load_nav_graph_def data345_def enumerate3 item_step_def edge_step_def distance_def
        pose_at_def add_edge_def empty_graph_def Let_def sqrt_examples)

lemma load_data_one_way:
  "load_nav_graph data_one_way = Inl (AssertionError undirected_msg)"
  by (simp add: load_nav_graph_def data_one_way_def enumerate2 item_step_def edge_step_def distance_def
        pose_at_def add_edge_def empty_graph_def Let_def)


theorem edges_of_loaded_graph_witness:
  "(\<exists>G. load_nav_graph data345 = Inr G \<and> adj G ''A'' ''C'' = Some 5) \<and>
   (\<exists>i j. i < length data345 \<and> j < length data345 \<and>
         ''A'' = image_id (data345 ! i) \<and> ''C'' = image_id (data345 ! j) \<and>
         included (data345 ! i) \<and> included (data345 ! j) \<and>
         unobstructed (data345 ! i) ! j \<and> unobstructed (data345 ! j) ! i \<and>
         5 = euclidean (position_of (data345 ! i)) (position_of (data345 ! j))) \<and>
   one_way data_one_way 0 1 \<and> well_formed data_one_way \<and>
   load_nav_graph data_one_way = Inl (AssertionError undirected_msg) \<and>
   isl (load_nav_graphs [(''s'', data_one_way)])"
proof -
  from load_data345 obtain G where G: "load_nav_graph data345 = Inr G" "adj G ''A'' ''C'' = Some 5"
    by blast
  from edges_of_loaded_graph[of data345 G "''A''" "''C''" 5] G
  have a: "\<exists>i j. i < length data345 \<and> j < length data345 \<and>
         ''A'' = image_id (data345 ! i) \<and> ''C'' = image_id (data345 ! j) \<and>
         included (data345 ! i) \<and> included (data345 ! j) \<and>
         unobstructed (data345 ! i) ! j \<and> unobstructed (data345 ! j) ! i \<and>
         5 = euclidean (position_of (data345 ! i)) (position_of (data345 ! j))"
    by blast
  have ow: "one_way data_one_way 0 1" by (simp add: one_way_def data_one_way_def)
  have wf: "well_formed data_one_way" by (simp add: well_formed_def data_one_way_def pose_at_def)
  have mem: "(''s'', data_one_way) \<in> set [(''s'', data_one_way)]" by simp
  from edges_of_loaded_graph[of data_one_way G "''A''" "''B''" 3 0 1 "''s''" "[(''s'', data_one_way)]"]
    ow wf mem
  have b: "load_nav_graph data_one_way = Inl (AssertionError undirected_msg) \<and>
        isl (load_nav_graphs [(''s'', data_one_way)])"
    by blast
  from G a ow wf b show ?thesis by blast
qed

subsection \<open>The loaded graph is undirected\<close>

text \<open>
  The graph that the loader returns is undirected: both directions of an edge carry the
  same weight. The distance table itself is computed from this graph by the
  shortest-path routine of the graph library, which is not part of the program.
\<close>

lemma add_edge_symmetric:
  assumes "\<forall>x y. adj G x y = adj G y x"
  shows "adj (add_edge G u v w) x y = adj (add_edge G u v w) y x"
  using assms by (auto simp: adj_add_edge)

lemma edge_step_symmetric:
  assumes "\<forall>x y. adj G x y = adj G y x" and "edge_step data i item jc G = Inr G'"
  shows "\<forall>x y. adj G' x y = adj G' y x"
proof -
  obtain j conn where jc: "jc = (j, conn)" by (cases jc) auto
  let ?G1 = "G\<lparr>position := (position G)(image_id item \<mapsto> [pose item ! 3, pose item ! 7, pose item ! 11])\<rparr>"
  have s1: "\<forall>x y. adj ?G1 x y = adj ?G1 y x" using assms(1) by simp
  from assms(2) jc have "G' = G \<or> (\<exists>w. G' = add_edge ?G1 (image_id item) (image_id (data ! j)) w)"
    by (auto simp: edge_step_def Let_def split: if_splits sum.splits)
  then show ?thesis
  proof
    assume "G' = G"
    with assms(1) show ?thesis by simp
  next
    assume "\<exists>w. G' = add_edge ?G1 (image_id item) (image_id (data ! j)) w"
    then obtain w where "G' = add_edge ?G1 (image_id item) (image_id (data ! j)) w" by blast
    with add_edge_symmetric[OF s1] show ?thesis by blast
  qed
qed

lemma load_nav_graph_symmetric:
  assumes "load_nav_graph data = Inr G"
  shows "adj G u v = adj G v u"
proof -
  have "\<forall>x y. adj G x y = adj G y x"
  proof (rule foldM_invariant[where P = "\<lambda>G. \<forall>x y. adj G x y = adj G y x",
          OF assms[unfolded load_nav_graph_def]])
    show "\<forall>x y. adj empty_graph x y = adj empty_graph y x" by (simp add: empty_graph_def)
  next
    fix x s s'
    assume s: "\<forall>x y. adj s x y = adj s y x" and st: "item_step data x s = Inr s'"
    obtain i item where xi: "x = (i, item)" by (cases x) auto
    show "\<forall>x y. adj s' x y = adj s' y x"
    proof (cases "included item")
      case False
      with st xi s show ?thesis by (simp add: item_step_def)
    next
      case True
      with st xi have f: "foldM (edge_step data i item) (enumerate 0 (unobstructed item)) s = Inr s'"
        by (simp add: item_step_def)
      show ?thesis
        by (rule foldM_invariant[where P = "\<lambda>G. \<forall>x y. adj G x y = adj G y x", OF f s])
           (rule edge_step_symmetric)
    qed
  qed
  then show ?thesis by simp
qed

end
